theory Spec2Isabelle
  imports Main
begin

section \<open>Values exchanged with the external services\<close>

text \<open>
  The collectors of \<^verbatim>\<open>src/collectors\<close> talk to three external services.  The
  services, the wall clock and the date parser of the standard library are not part
  of the repository; they are the environment of the model.  Conventions:
  \<^item> every exception class that matters to a handler is a constructor of \<open>exn\<close>; all
    of them are subclasses of Python's \<^verbatim>\<open>Exception\<close>, so \<^verbatim>\<open>except Exception\<close> catches
    each of them and \<^verbatim>\<open>except requests.exceptions.RequestException\<close> catches only the
    first;
  \<^item> a decoded JSON document is a value of \<open>json\<close> (numbers are integers, as the
    counters of the two REST services are);
  \<^item> a point in time is an integer number of microseconds, the resolution of
    \<^verbatim>\<open>datetime\<close>; a sleep is recorded with its length in microseconds;
  \<^item> the result of Python's true division \<^verbatim>\<open>a / b\<close> on integers is kept symbolically
    as \<open>TrueDiv a b\<close>, the floating-point number that division returns;
  \<^item> a rate-limit header is modelled by the integer \<^verbatim>\<open>int()\<close> reads from it, or \<open>None\<close>
    when the header is absent (for \<^verbatim>\<open>X-RateLimit-Reset\<close> also when it is the empty
    string, which line 59 of github.py treats alike);
  \<^item> every function of the model is total: the request executors call themselves
    again after a throttling response, and the interpreter ends such a chain with a
    \<^verbatim>\<open>RecursionError\<close> when no further nested call is allowed;
  \<^item> the headers of the HTTP session are not modelled.
\<close>

datatype exn =
    RequestException
  | ValueError
  | TypeError
  | IndexError
  | AttributeError
  | KeyError
  | ZeroDivisionError
  | OverflowError
  | RecursionError
  | OtherException

datatype json =
    JNull
  | JBool bool
  | JInt int
  | JStr string
  | JList "json list"
  | JDict "(string \<times> json) list"

datatype pyfloat = TrueDiv int int

datatype pval = PStr string | PInt int

type_synonym params = "(string \<times> pval) list"

datatype level = Warning | Error

datatype event =
    Get string params
  | Sleep int
  | Log level string

record response =
  status_code :: int
  x_ratelimit_remaining :: "int option"
  x_ratelimit_reset :: "int option"
  content_encoding_gzip :: bool
  json_body :: "exn + json"
  gunzip_body :: "exn + json"

datatype outcome = Raises exn | Responds response

text \<open>
  The environment: \<open>service w n endpoint params\<close> is what \<^verbatim>\<open>session.get\<close> does on the
  \<open>n\<close>-th request of a collector (it raises, or it returns a response);
  \<open>clock w k\<close> is the \<open>k\<close>-th reading of \<^verbatim>\<open>datetime.now()\<close>;
  \<open>strptime w text\<close> is \<^verbatim>\<open>datetime.strptime(text, '%Y-%m-%dT%H:%M:%SZ')\<close>, \<open>None\<close> when
  the text does not match the format (a \<^verbatim>\<open>ValueError\<close>);
  \<open>strftime w t\<close> is \<^verbatim>\<open>t.strftime('%Y-%m-%d')\<close>.
  The interpreter and its platform are part of the environment too:
  \<open>in_datetime_range w n\<close> tells whether \<^verbatim>\<open>datetime.fromtimestamp(n)\<close> accepts the time
  stamp \<open>n\<close> (it raises otherwise);
  \<open>longest_sleep w\<close> is the longest wait, in microseconds, that \<^verbatim>\<open>time.sleep\<close> accepts (it
  raises \<^verbatim>\<open>OverflowError\<close> for a longer one; a minute is accepted everywhere);
  \<open>recursion_limit w\<close> is the number of nested calls of \<^verbatim>\<open>_make_request\<close> that the
  interpreter allows below a call made by a method of a collector (about a thousand
  less the frames already on the stack, for CPython's default limit).
\<close>

record world =
  service :: "nat \<Rightarrow> string \<Rightarrow> params \<Rightarrow> outcome"
  clock :: "nat \<Rightarrow> int"
  strptime :: "string \<Rightarrow> int option"
  strftime :: "int \<Rightarrow> string"
  in_datetime_range :: "int \<Rightarrow> bool"
  longest_sleep :: int
  recursion_limit :: nat

text \<open>
  The attributes of a collector object (\<^verbatim>\<open>GitHubCollector\<close>, \<^verbatim>\<open>StackOverflowCollector\<close>):
  the optional credential (\<^verbatim>\<open>token\<close>, \<^verbatim>\<open>api_key\<close>) and the two rate-limit fields,
  together with the history of the run: how many requests were sent, how often the
  clock was read, and the trace of requests, sleeps and warning or error log lines.
\<close>

record session =
  credential :: "string option"
  rate_limit_remaining :: int
  rate_limit_reset :: "int option"
  requests :: nat
  ticks :: nat
  trace :: "event list"

definition seconds :: "int \<Rightarrow> int" where
  "seconds n = n * 1000000"

text \<open>
  \<^verbatim>\<open>datetime.fromtimestamp(n)\<close>: a \<^verbatim>\<open>ValueError\<close> outside the range of the platform (an
  \<^verbatim>\<open>OverflowError\<close> on some; neither is a \<^verbatim>\<open>RequestException\<close>, which is all that
  matters to the handlers).
\<close>

definition fromtimestamp :: "world \<Rightarrow> int \<Rightarrow> exn + int" where
  "fromtimestamp w n = (if in_datetime_range w n then Inr (seconds n) else Inl ValueError)"

definition emit :: "event \<Rightarrow> session \<Rightarrow> session" where
  "emit e s = s\<lparr>trace := trace s @ [e]\<rparr>"

definition now :: "world \<Rightarrow> session \<Rightarrow> int \<times> session" where
  "now w s = (clock w (ticks s), s\<lparr>ticks := Suc (ticks s)\<rparr>)"

text \<open>
  \<^verbatim>\<open>time.sleep(d)\<close> for a wait \<open>d\<close> computed at run time: the exception it raises, if any,
  and the state afterwards.  (The pauses of fixed length in the source, a minute at
  most, are accepted everywhere and are recorded directly.)
\<close>

definition accepts_sleep :: "world \<Rightarrow> int \<Rightarrow> bool" where
  "accepts_sleep w d = (d \<le> max (seconds 60) (longest_sleep w))"

definition time_sleep :: "world \<Rightarrow> int \<Rightarrow> session \<Rightarrow> exn option \<times> session" where
  "time_sleep w d s =
     (if accepts_sleep w d then (None, emit (Sleep d) s) else (Some OverflowError, s))"

text \<open>Assignment \<^verbatim>\<open>d[k] = v\<close> on a Python dict, which keeps insertion order.\<close>

fun dict_set :: "'k \<Rightarrow> 'v \<Rightarrow> ('k \<times> 'v) list \<Rightarrow> ('k \<times> 'v) list" where
  "dict_set k v [] = [(k, v)]"
| "dict_set k v ((k', v') # kvs) =
     (if k' = k then (k, v) # kvs else (k', v') # dict_set k v kvs)"

definition dict_keys :: "('k \<times> 'v) list \<Rightarrow> 'k list" where
  "dict_keys kvs = map fst kvs"

section \<open>The rate-limited request executors\<close>

text \<open>\<^verbatim>\<open>response.raise_for_status()\<close>: an \<^verbatim>\<open>HTTPError\<close>, which is a \<^verbatim>\<open>RequestException\<close>.\<close>

definition raise_for_status :: "response \<Rightarrow> exn option" where
  "raise_for_status r =
     (if 400 \<le> status_code r \<and> status_code r < 600 then Some RequestException else None)"

text \<open>
  The handler \<^verbatim>\<open>except requests.exceptions.RequestException\<close> of
  \<^verbatim>\<open>GitHubCollector._make_request\<close> (github.py, lines 74-76): log, return \<^verbatim>\<open>{}\<close>.
\<close>

definition gh_except :: "(exn + json) \<times> session \<Rightarrow> (exn + json) \<times> session" where
  "gh_except rs =
     (case rs of
        (Inl RequestException, s) \<Rightarrow> (Inr (JDict []), emit (Log Error ''API request failed'') s)
      | _ \<Rightarrow> rs)"

text \<open>The state after \<^verbatim>\<open>session.get\<close> was called (github.py, line 54).\<close>

definition sent :: "string \<Rightarrow> params \<Rightarrow> session \<Rightarrow> session" where
  "sent endpoint ps s = emit (Get endpoint ps) (s\<lparr>requests := Suc (requests s)\<rparr>)"

text \<open>
  Lines 57-60 of github.py: the rate-limit fields are refreshed from the headers.  The
  result is the exception raised, if any, and the state then: when \<^verbatim>\<open>fromtimestamp\<close>
  raises, \<^verbatim>\<open>rate_limit_remaining\<close> has been assigned already.
\<close>

definition gh_update_rate_limit :: "world \<Rightarrow> response \<Rightarrow> session \<Rightarrow> exn option \<times> session" where
  "gh_update_rate_limit w r s =
     (let s1 = s\<lparr>rate_limit_remaining :=
                  (case x_ratelimit_remaining r of None \<Rightarrow> 0 | Some n \<Rightarrow> n)\<rparr>
      in case x_ratelimit_reset r of
           None \<Rightarrow> (None, s1)
         | Some t \<Rightarrow>
             (case fromtimestamp w t of
                Inl e \<Rightarrow> (Some e, s1)
              | Inr reset \<Rightarrow> (None, s1\<lparr>rate_limit_reset := Some reset\<rparr>)))"

text \<open>Lines 63-68 of github.py: the warning and the sleep before the retry.\<close>

definition gh_wait :: "world \<Rightarrow> session \<Rightarrow> exn option \<times> session" where
  "gh_wait w s =
     (let s1 = emit (Log Warning ''Rate limit exceeded, waiting...'') s
      in case rate_limit_reset s1 of
           Some reset \<Rightarrow>
             (let (t, s2) = now w s1;
                  wait_time = reset - t
              in time_sleep w (max wait_time (seconds 60)) s2)
         | None \<Rightarrow> (None, emit (Sleep (seconds 60)) s1))"

text \<open>
  One pass through the \<^verbatim>\<open>try\<close> block of a request executor, up to the point where it
  calls itself again: either the block ends there, with a value returned or an
  exception raised, or the executor goes on to call itself in the given state.
\<close>

datatype attempt =
    Ends "(exn + json) \<times> session"
  | Retries session

text \<open>Lines 54-72 of github.py, up to the call in line 69.\<close>

definition gh_attempt :: "world \<Rightarrow> string \<Rightarrow> params \<Rightarrow> session \<Rightarrow> attempt" where
  "gh_attempt w endpoint ps s =
     (case service w (requests s) endpoint ps of
        Raises e \<Rightarrow> Ends (Inl e, sent endpoint ps s)
      | Responds r \<Rightarrow>
          (case gh_update_rate_limit w r (sent endpoint ps s) of
             (Some e, s1) \<Rightarrow> Ends (Inl e, s1)
           | (None, s1) \<Rightarrow>
               if status_code r = 403 then
                 (case gh_wait w s1 of
                    (Some e, s2) \<Rightarrow> Ends (Inl e, s2)
                  | (None, s2) \<Rightarrow> Retries s2)
               else
                 (case raise_for_status r of
                    Some e \<Rightarrow> Ends (Inl e, s1)
                  | None \<Rightarrow> Ends (json_body r, s1))))"

text \<open>
  \<^verbatim>\<open>GitHubCollector._make_request\<close> (github.py, lines 37-76).  The second argument is
  the number of nested calls the interpreter still allows below this one: when it is
  zero the call in line 69 raises \<^verbatim>\<open>RecursionError\<close>.  The result is \<open>(Inl e, s)\<close> when the
  call raises \<open>e\<close> and \<open>(Inr body, s)\<close> when it returns \<open>body\<close>.
\<close>

fun gh_make_request ::
  "world \<Rightarrow> nat \<Rightarrow> string \<Rightarrow> params \<Rightarrow> session \<Rightarrow> (exn + json) \<times> session" where
  "gh_make_request w 0 endpoint ps s =
     gh_except
       (case gh_attempt w endpoint ps s of
          Ends res \<Rightarrow> res
        | Retries s1 \<Rightarrow> (Inl RecursionError, s1))"
| "gh_make_request w (Suc depth) endpoint ps s =
     gh_except
       (case gh_attempt w endpoint ps s of
          Ends res \<Rightarrow> res
        | Retries s1 \<Rightarrow> gh_make_request w depth endpoint ps s1)"

declare gh_make_request.simps [simp del]

text \<open>
  The handler of \<^verbatim>\<open>StackOverflowCollector._make_request\<close> (stackoverflow.py, lines
  74-76): log, return the default envelope.
\<close>

definition default_envelope :: json where
  "default_envelope = JDict [(''items'', JList []), (''has_more'', JBool False)]"

definition so_except :: "(exn + json) \<times> session \<Rightarrow> (exn + json) \<times> session" where
  "so_except rs =
     (case rs of
        (Inl RequestException, s) \<Rightarrow> (Inr default_envelope, emit (Log Error ''API request failed'') s)
      | _ \<Rightarrow> rs)"

text \<open>Lines 46-49 of stackoverflow.py: the credential and the site are written into \<^verbatim>\<open>params\<close>.\<close>

definition so_params :: "session \<Rightarrow> params \<Rightarrow> params" where
  "so_params s ps =
     (let ps1 = (case credential s of
                   None \<Rightarrow> ps
                 | Some key \<Rightarrow> if key = [] then ps else dict_set ''key'' (PStr key) ps)
      in dict_set ''site'' (PStr ''stackoverflow'') ps1)"

definition so_update_rate_limit :: "response \<Rightarrow> session \<Rightarrow> session" where
  "so_update_rate_limit r s =
     s\<lparr>rate_limit_remaining := (case x_ratelimit_remaining r of None \<Rightarrow> 0 | Some n \<Rightarrow> n)\<rparr>"

definition so_wait :: "session \<Rightarrow> session" where
  "so_wait s = emit (Sleep (seconds 60)) (emit (Log Warning ''Rate limit exceeded, waiting...'') s)"

text \<open>Lines 66-70 of stackoverflow.py: the body, decompressed first when the service says so.\<close>

definition so_decode :: "response \<Rightarrow> exn + json" where
  "so_decode r = (if content_encoding_gzip r then gunzip_body r else json_body r)"

text \<open>Lines 54-72 of stackoverflow.py, up to the call in line 62.\<close>

definition so_attempt :: "world \<Rightarrow> string \<Rightarrow> params \<Rightarrow> session \<Rightarrow> attempt" where
  "so_attempt w endpoint ps s =
     (case service w (requests s) endpoint ps of
        Raises e \<Rightarrow> Ends (Inl e, sent endpoint ps s)
      | Responds r \<Rightarrow>
          (let s1 = so_update_rate_limit r (sent endpoint ps s)
           in if status_code r = 429 then Retries (so_wait s1)
              else
                (case raise_for_status r of
                   Some e \<Rightarrow> Ends (Inl e, s1)
                 | None \<Rightarrow> Ends (so_decode r, s1))))"

text \<open>
  \<^verbatim>\<open>StackOverflowCollector._make_request\<close> (stackoverflow.py, lines 35-76); the second
  argument is the number of nested calls still allowed, as above.
\<close>

fun so_make_request ::
  "world \<Rightarrow> nat \<Rightarrow> string \<Rightarrow> params \<Rightarrow> session \<Rightarrow> (exn + json) \<times> session" where
  "so_make_request w 0 endpoint ps0 s =
     (let ps = so_params s ps0
      in so_except
           (case so_attempt w endpoint ps s of
              Ends res \<Rightarrow> res
            | Retries s1 \<Rightarrow> (Inl RecursionError, s1)))"
| "so_make_request w (Suc depth) endpoint ps0 s =
     (let ps = so_params s ps0
      in so_except
           (case so_attempt w endpoint ps s of
              Ends res \<Rightarrow> res
            | Retries s1 \<Rightarrow> so_make_request w depth endpoint ps s1))"

declare so_make_request.simps [simp del]

section \<open>Notions used to state the properties of the request executors\<close>





text \<open>
  The length of the sleep of github.py, lines 64-68, as a function of the reset time
  the collector knows and of the clock reading: \<^verbatim>\<open>max(wait_time, 60)\<close> when a reset time
  is known, 60 seconds otherwise.
\<close>

definition gh_sleep_time :: "int option \<Rightarrow> int \<Rightarrow> int" where
  "gh_sleep_time reset t =
     (case reset of None \<Rightarrow> seconds 60 | Some reset_time \<Rightarrow> max (reset_time - t) (seconds 60))"

text \<open>
  A reset time that \<^verbatim>\<open>time.sleep\<close> can wait for, whenever the clock is read; and a
  throttling response of GitHub whose reset header, if any, \<^verbatim>\<open>datetime.fromtimestamp\<close>
  accepts and \<^verbatim>\<open>time.sleep\<close> can wait for.
\<close>

definition waitable :: "world \<Rightarrow> int option \<Rightarrow> bool" where
  "waitable w reset = (\<forall>k. accepts_sleep w (gh_sleep_time reset (clock w k)))"


text \<open>The lengths of the sleeps recorded in a trace, in order.\<close>

fun sleeps :: "event list \<Rightarrow> int list" where
  "sleeps [] = []"
| "sleeps (Sleep d # events) = d # sleeps events"
| "sleeps (e # events) = sleeps events"


section \<open>Python operations on decoded JSON\<close>

text \<open>Sequencing of computations that may raise.\<close>

definition and_then :: "exn + 'a \<Rightarrow> ('a \<Rightarrow> exn + 'b) \<Rightarrow> exn + 'b" where
  "and_then x f = (case x of Inl e \<Rightarrow> Inl e | Inr a \<Rightarrow> f a)"

text \<open>Truth value of an object in \<^verbatim>\<open>if obj:\<close>.\<close>

fun truthy :: "json \<Rightarrow> bool" where
  "truthy JNull = False"
| "truthy (JBool b) = b"
| "truthy (JInt n) = (n \<noteq> 0)"
| "truthy (JStr text) = (text \<noteq> [])"
| "truthy (JList xs) = (xs \<noteq> [])"
| "truthy (JDict kvs) = (kvs \<noteq> [])"

text \<open>\<^verbatim>\<open>obj.get(key, default)\<close>: only a dict has the method.\<close>

fun py_get :: "json \<Rightarrow> string \<Rightarrow> json \<Rightarrow> exn + json" where
  "py_get (JDict kvs) key dflt = Inr (case map_of kvs key of None \<Rightarrow> dflt | Some v \<Rightarrow> v)"
| "py_get obj key dflt = Inl AttributeError"

text \<open>\<^verbatim>\<open>len(obj)\<close>.\<close>

fun py_len :: "json \<Rightarrow> exn + nat" where
  "py_len (JStr text) = Inr (length text)"
| "py_len (JList xs) = Inr (length xs)"
| "py_len (JDict kvs) = Inr (length kvs)"
| "py_len obj = Inl TypeError"

text \<open>
  The elements \<^verbatim>\<open>for x in obj\<close> runs through: the elements of a list, the keys of a
  dict, the characters of a string.
\<close>

fun py_iter :: "json \<Rightarrow> exn + json list" where
  "py_iter (JList xs) = Inr xs"
| "py_iter (JDict kvs) = Inr (map (\<lambda>kv. JStr (fst kv)) kvs)"
| "py_iter (JStr text) = Inr (map (\<lambda>c. JStr [c]) text)"
| "py_iter obj = Inl TypeError"

text \<open>\<^verbatim>\<open>obj[0]\<close>.\<close>

fun py_first :: "json \<Rightarrow> exn + json" where
  "py_first (JList []) = Inl IndexError"
| "py_first (JList (x # xs)) = Inr x"
| "py_first (JStr []) = Inl IndexError"
| "py_first (JStr (c # text)) = Inr (JStr [c])"
| "py_first (JDict kvs) = Inl KeyError"
| "py_first obj = Inl TypeError"

text \<open>The integer an object adds to a running \<^verbatim>\<open>sum\<close> that is an integer.\<close>

fun as_number :: "json \<Rightarrow> exn + int" where
  "as_number (JInt n) = Inr n"
| "as_number (JBool b) = Inr (if b then 1 else 0)"
| "as_number obj = Inl TypeError"

text \<open>\<^verbatim>\<open>sum(x.get(field, 0) for x in xs)\<close>.\<close>

fun sum_field :: "string \<Rightarrow> json list \<Rightarrow> exn + int" where
  "sum_field field [] = Inr 0"
| "sum_field field (x # xs) =
     and_then (py_get x field (JInt 0)) (\<lambda>v.
     and_then (as_number v) (\<lambda>n.
     and_then (sum_field field xs) (\<lambda>m. Inr (n + m))))"

text \<open>\<^verbatim>\<open>a / b\<close> on integers.\<close>

definition py_truediv :: "int \<Rightarrow> int \<Rightarrow> exn + pyfloat" where
  "py_truediv a b = (if b = 0 then Inl ZeroDivisionError else Inr (TrueDiv a b))"

text \<open>\<^verbatim>\<open>str(n)\<close> on an integer, as an f-string prints it.\<close>

fun digits :: "nat \<Rightarrow> string" where
  "digits n =
     (if n < 10 then [''0123456789'' ! n] else digits (n div 10) @ [''0123456789'' ! (n mod 10)])"

declare digits.simps [simp del]

definition str_int :: "int \<Rightarrow> string" where
  "str_int n = (if n < 0 then CHR ''-'' # digits (nat (- n)) else digits (nat n))"

text \<open>\<^verbatim>\<open>' '.join(parts)\<close>.\<close>

fun join_spaces :: "string list \<Rightarrow> string" where
  "join_spaces [] = []"
| "join_spaces [part] = part"
| "join_spaces (part # parts) = part @ '' '' @ join_spaces parts"

text \<open>
  \<^verbatim>\<open>datetime.strptime(x.get(field, ''), '%Y-%m-%dT%H:%M:%SZ') > cutoff\<close>: a
  \<^verbatim>\<open>TypeError\<close> when the field is not a string, a \<^verbatim>\<open>ValueError\<close> when it does not match
  the format.
\<close>

definition newer_than :: "world \<Rightarrow> string \<Rightarrow> int \<Rightarrow> json \<Rightarrow> exn + bool" where
  "newer_than w field cutoff x =
     and_then (py_get x field (JStr [])) (\<lambda>v.
       case v of
         JStr text \<Rightarrow>
           (case strptime w text of None \<Rightarrow> Inl ValueError | Some t \<Rightarrow> Inr (t > cutoff))
       | _ \<Rightarrow> Inl TypeError)"

text \<open>The number of elements of \<open>xs\<close> that are newer than the cutoff.\<close>

fun count_newer :: "world \<Rightarrow> string \<Rightarrow> int \<Rightarrow> json list \<Rightarrow> exn + nat" where
  "count_newer w field cutoff [] = Inr 0"
| "count_newer w field cutoff (x # xs) =
     and_then (newer_than w field cutoff x) (\<lambda>b.
     and_then (count_newer w field cutoff xs) (\<lambda>n. Inr (if b then Suc n else n)))"

definition days :: "int \<Rightarrow> int" where
  "days n = seconds (n * 86400)"

text \<open>
  The value of an entry of a result: an integer, a float, a reading of the clock (the
  source stores its \<^verbatim>\<open>isoformat()\<close>), a string, a JSON value handed through, a dict,
  or the dict of floating-point statistics that pandas computes from a series of
  search-interest values (mean, maximum, standard deviation and so on), which is kept
  symbolically as the series itself.
\<close>

datatype stat =
    SInt int
  | SFloat pyfloat
  | STime int
  | SStr string
  | SJson json
  | SDict "(string \<times> stat) list"
  | SSeries "int list"

type_synonym entry = "(string \<times> stat) list option"

section \<open>Batch loops\<close>

text \<open>
  The shape shared by the batch methods: \<^verbatim>\<open>for key in keys: try: ... result[key] = v
  except Exception: log; result[key] = None\<close>.  \<open>step key s\<close> is one round, with the
  value it leaves under \<open>key\<close>.
\<close>

fun for_each ::
  "('k \<Rightarrow> 's \<Rightarrow> 'v \<times> 's) \<Rightarrow> 'k list \<Rightarrow> ('k \<times> 'v) list \<Rightarrow> 's \<Rightarrow> ('k \<times> 'v) list \<times> 's" where
  "for_each step [] result s = (result, s)"
| "for_each step (key # keys) result s =
     (case step key s of (v, s') \<Rightarrow> for_each step keys (dict_set key v result) s')"

text \<open>The handler \<^verbatim>\<open>except Exception as e: logger.error(...); result[key] = None\<close>.\<close>

definition except_exception ::
  "string \<Rightarrow> (exn + 'v option) \<times> session \<Rightarrow> 'v option \<times> session" where
  "except_exception msg rs =
     (case rs of
        (Inl e, s) \<Rightarrow> (None, emit (Log Error msg) s)
      | (Inr v, s) \<Rightarrow> (v, s))"

section \<open>The repository collector\<close>

text \<open>
  \<^verbatim>\<open>GitHubCollector.search_repositories\<close> (github.py, lines 78-109).  The log line of
  line 108 evaluates \<^verbatim>\<open>len(repos)\<close>, which raises when \<^verbatim>\<open>items\<close> is not a sized object.
  The request is made one frame below the batch method that calls
  \<^verbatim>\<open>search_repositories\<close>, which leaves one nested call less.
\<close>

definition search_repositories ::
  "world \<Rightarrow> string \<Rightarrow> int \<Rightarrow> int option \<Rightarrow> session \<Rightarrow> (exn + json) \<times> session" where
  "search_repositories w language min_stars created_after s =
     (let query_parts =
            [''language:'' @ language, ''stars:>='' @ str_int min_stars] @
            (case created_after of None \<Rightarrow> [] | Some t \<Rightarrow> [''created:>='' @ strftime w t]);
          ps = [(''q'', PStr (join_spaces query_parts)), (''sort'', PStr ''stars''),
                (''order'', PStr ''desc''), (''per_page'', PInt 100)]
      in case gh_make_request w (recursion_limit w - 1) ''/search/repositories'' ps s of
           (response, s1) \<Rightarrow>
             (and_then response (\<lambda>body.
              and_then (py_get body ''items'' (JList [])) (\<lambda>repos.
              and_then (py_len repos) (\<lambda>n. Inr repos))), s1))"

text \<open>
  Lines 131-150 of github.py, the branch \<^verbatim>\<open>if repos:\<close> of
  \<^verbatim>\<open>get_language_stats\<close>: the sums, the average, the repositories created after
  \<^verbatim>\<open>datetime.now() - timedelta(days=30)\<close>, and the entry with its time stamp.
\<close>

definition language_summary :: "world \<Rightarrow> json \<Rightarrow> session \<Rightarrow> (exn + entry) \<times> session" where
  "language_summary w repos s =
     (case and_then (py_iter repos) (\<lambda>items.
           and_then (sum_field ''stargazers_count'' items) (\<lambda>total_stars.
           and_then (sum_field ''forks_count'' items) (\<lambda>total_forks.
           and_then (sum_field ''watchers_count'' items) (\<lambda>total_watchers.
           and_then (py_len repos) (\<lambda>n.
           and_then (py_truediv total_stars (int n)) (\<lambda>avg_stars.
           Inr (items, n, total_stars, total_forks, total_watchers, avg_stars))))))) of
        Inl e \<Rightarrow> (Inl e, s)
      | Inr (items, n, total_stars, total_forks, total_watchers, avg_stars) \<Rightarrow>
          (let (t, s1) = now w s;
               recent_date = t - days 30
           in case count_newer w ''created_at'' recent_date items of
                Inl e \<Rightarrow> (Inl e, s1)
              | Inr recent_repos \<Rightarrow>
                  (let (stamp, s2) = now w s1
                   in (Inr (Some
                         [(''total_repos'', SInt (int n)),
                          (''total_stars'', SInt total_stars),
                          (''total_forks'', SInt total_forks),
                          (''total_watchers'', SInt total_watchers),
                          (''avg_stars'', SFloat avg_stars),
                          (''recent_repos'', SInt (int recent_repos)),
                          (''timestamp'', STime stamp)]), s2))))"

text \<open>Lines 157-159 of github.py.\<close>

definition gh_pause :: "session \<Rightarrow> session" where
  "gh_pause s =
     (if rate_limit_remaining s < 10
      then emit (Sleep (seconds 5)) (emit (Log Warning ''Approaching rate limit, pausing...'') s)
      else s)"

text \<open>The body of the \<^verbatim>\<open>try\<close> of \<^verbatim>\<open>get_language_stats\<close> (github.py, lines 127-159).\<close>

definition language_stats_body ::
  "world \<Rightarrow> string \<Rightarrow> session \<Rightarrow> (exn + entry) \<times> session" where
  "language_stats_body w language s =
     (case search_repositories w language 10 None s of
        (Inl e, s1) \<Rightarrow> (Inl e, s1)
      | (Inr repos, s1) \<Rightarrow>
          if truthy repos then
            (case language_summary w repos s1 of
               (Inl e, s2) \<Rightarrow> (Inl e, s2)
             | (Inr v, s2) \<Rightarrow> (Inr v, gh_pause s2))
          else (Inr None, gh_pause s1))"

definition language_stats_round :: "world \<Rightarrow> string \<Rightarrow> session \<Rightarrow> entry \<times> session" where
  "language_stats_round w language s =
     except_exception ''Error calculating stats'' (language_stats_body w language s)"

text \<open>\<^verbatim>\<open>GitHubCollector.get_language_stats\<close> (github.py, lines 111-165).\<close>

definition get_language_stats ::
  "world \<Rightarrow> string list \<Rightarrow> session \<Rightarrow> (string \<times> entry) list \<times> session" where
  "get_language_stats w languages s = for_each (language_stats_round w) languages [] s"

text \<open>
  Lines 256-275 of github.py, the branch \<^verbatim>\<open>if repos:\<close> of
  \<^verbatim>\<open>get_tech_popularity_metrics\<close>.
\<close>

definition popularity_summary :: "world \<Rightarrow> json \<Rightarrow> session \<Rightarrow> (exn + entry) \<times> session" where
  "popularity_summary w repos s =
     (case and_then (py_iter repos) (\<lambda>items.
           and_then (sum_field ''stargazers_count'' items) (\<lambda>total_stars.
           and_then (sum_field ''forks_count'' items) (\<lambda>total_forks.
           and_then (sum_field ''open_issues_count'' items) (\<lambda>open_issues.
           Inr (items, total_stars, total_forks, open_issues))))) of
        Inl e \<Rightarrow> (Inl e, s)
      | Inr (items, total_stars, total_forks, open_issues) \<Rightarrow>
          (let (t, s1) = now w s;
               cutoff = t - days 7
           in case and_then (count_newer w ''updated_at'' cutoff items) (\<lambda>recent_updates.
                   and_then (py_len repos) (\<lambda>n.
                   and_then (py_truediv total_stars (int n)) (\<lambda>avg_stars.
                   and_then (py_truediv total_forks (int n)) (\<lambda>avg_forks.
                   Inr (recent_updates, n, avg_stars, avg_forks))))) of
                Inl e \<Rightarrow> (Inl e, s1)
              | Inr (recent_updates, n, avg_stars, avg_forks) \<Rightarrow>
                  (let (stamp, s2) = now w s1
                   in (Inr (Some
                         [(''repo_count'', SInt (int n)),
                          (''total_stars'', SInt total_stars),
                          (''total_forks'', SInt total_forks),
                          (''avg_stars'', SFloat avg_stars),
                          (''avg_forks'', SFloat avg_forks),
                          (''open_issues'', SInt open_issues),
                          (''recent_activity'', SInt (int recent_updates)),
                          (''timestamp'', STime stamp)]), s2))))"

text \<open>
  The body of the \<^verbatim>\<open>try\<close> of \<^verbatim>\<open>get_tech_popularity_metrics\<close> (github.py, lines
  244-282); the sleep of line 282 is half a second.
\<close>

definition popularity_body ::
  "world \<Rightarrow> string \<Rightarrow> session \<Rightarrow> (exn + entry) \<times> session" where
  "popularity_body w tech s =
     (let ps = [(''q'', PStr tech), (''sort'', PStr ''stars''), (''per_page'', PInt 100)]
      in case gh_make_request w (recursion_limit w) ''/search/repositories'' ps s of
           (response, s1) \<Rightarrow>
             (case and_then response (\<lambda>body. py_get body ''items'' (JList [])) of
                Inl e \<Rightarrow> (Inl e, s1)
              | Inr repos \<Rightarrow>
                  if truthy repos then
                    (case popularity_summary w repos s1 of
                       (Inl e, s2) \<Rightarrow> (Inl e, s2)
                     | (Inr v, s2) \<Rightarrow> (Inr v, emit (Sleep 500000) s2))
                  else (Inr None, emit (Sleep 500000) s1)))"

definition popularity_round :: "world \<Rightarrow> string \<Rightarrow> session \<Rightarrow> entry \<times> session" where
  "popularity_round w tech s =
     except_exception ''Error calculating metrics'' (popularity_body w tech s)"

text \<open>\<^verbatim>\<open>GitHubCollector.get_tech_popularity_metrics\<close> (github.py, lines 228-288).\<close>

definition get_tech_popularity_metrics ::
  "world \<Rightarrow> string list \<Rightarrow> session \<Rightarrow> (string \<times> entry) list \<times> session" where
  "get_tech_popularity_metrics w tech_list s = for_each (popularity_round w) tech_list [] s"

section \<open>The question-and-answer collector\<close>

text \<open>\<^verbatim>\<open>int(t.timestamp())\<close>: whole seconds, rounded towards zero.\<close>

definition to_epoch :: "int \<Rightarrow> int" where
  "to_epoch t = (if 0 \<le> t then t div 1000000 else - ((- t) div 1000000))"

text \<open>
  \<^verbatim>\<open>StackOverflowCollector.get_tag_questions\<close> (stackoverflow.py, lines 105-139).  The
  log line of line 138 evaluates \<^verbatim>\<open>len(questions)\<close>.  The request is made one frame
  below the batch method that calls \<^verbatim>\<open>get_tag_questions\<close>, which leaves one nested call
  less.
\<close>

definition get_tag_questions ::
  "world \<Rightarrow> string \<Rightarrow> int option \<Rightarrow> int option \<Rightarrow> int \<Rightarrow> session \<Rightarrow>
   (exn + json) \<times> session" where
  "get_tag_questions w tag fromdate todate page_size s =
     (let (from_t, s1) =
            (case fromdate of
               None \<Rightarrow> (let (t, s') = now w s in (t - days 30, s'))
             | Some t \<Rightarrow> (t, s));
          (to_t, s2) =
            (case todate of
               None \<Rightarrow> now w s1
             | Some t \<Rightarrow> (t, s1));
          ps = [(''order'', PStr ''desc''), (''sort'', PStr ''activity''), (''tagged'', PStr tag),
                (''fromdate'', PInt (to_epoch from_t)), (''todate'', PInt (to_epoch to_t)),
                (''pagesize'', PInt page_size), (''filter'', PStr ''withbody'')]
      in case so_make_request w (recursion_limit w - 1) ''/questions'' ps s2 of
           (response, s3) \<Rightarrow>
             (and_then response (\<lambda>body.
              and_then (py_get body ''items'' (JList [])) (\<lambda>questions.
              and_then (py_len questions) (\<lambda>n. Inr questions))), s3))"

text \<open>\<^verbatim>\<open>sum(q.get(field, 0) for q in questions) / max(len(questions), 1)\<close>.\<close>

definition average_field :: "string \<Rightarrow> json \<Rightarrow> exn + pyfloat" where
  "average_field field questions =
     and_then (py_iter questions) (\<lambda>items.
     and_then (sum_field field items) (\<lambda>total.
     and_then (py_len questions) (\<lambda>n. py_truediv total (max (int n) 1))))"

text \<open>
  Lines 263-273 of stackoverflow.py: the first element of \<^verbatim>\<open>items\<close> of the tag
  information (of \<^verbatim>\<open>[{}]\<close> when the key is missing) and the entry built from it and
  from the recent questions.
\<close>

definition demand_summary ::
  "world \<Rightarrow> json \<Rightarrow> json \<Rightarrow> session \<Rightarrow> (exn + entry) \<times> session" where
  "demand_summary w recent_questions tag_info_response s =
     (case and_then (py_get tag_info_response ''items'' (JList [JDict []])) (\<lambda>items.
           and_then (py_first items) (\<lambda>tag_info.
           and_then (py_get tag_info ''count'' (JInt 0)) (\<lambda>total_questions.
           and_then (py_len recent_questions) (\<lambda>n.
           and_then (average_field ''score'' recent_questions) (\<lambda>avg_score.
           and_then (average_field ''answer_count'' recent_questions) (\<lambda>avg_answers.
           and_then (average_field ''view_count'' recent_questions) (\<lambda>avg_views.
           and_then (py_get tag_info ''last_activity_date'' JNull) (\<lambda>last_activity.
           Inr (total_questions, n, avg_score, avg_answers, avg_views, last_activity))))))))) of
        Inl e \<Rightarrow> (Inl e, s)
      | Inr (total_questions, n, avg_score, avg_answers, avg_views, last_activity) \<Rightarrow>
          (let (stamp, s1) = now w s
           in (Inr (Some
                 [(''total_questions'', SJson total_questions),
                  (''recent_questions'', SInt (int n)),
                  (''avg_score'', SFloat avg_score),
                  (''avg_answers'', SFloat avg_answers),
                  (''avg_views'', SFloat avg_views),
                  (''last_activity'', SJson last_activity),
                  (''timestamp'', STime stamp)]), s1)))"

text \<open>
  The body of the \<^verbatim>\<open>try\<close> of \<^verbatim>\<open>get_tech_demand_metrics\<close> (stackoverflow.py, lines
  255-278); the sleep of line 278 is a tenth of a second.
\<close>

definition demand_body ::
  "world \<Rightarrow> string \<Rightarrow> session \<Rightarrow> (exn + entry) \<times> session" where
  "demand_body w tech s =
     (let (t, s1) = now w s
      in case get_tag_questions w tech (Some (t - days 7)) None 100 s1 of
           (Inl e, s2) \<Rightarrow> (Inl e, s2)
         | (Inr recent_questions, s2) \<Rightarrow>
             (case so_make_request w (recursion_limit w) (''/tags/'' @ tech @ ''/info'') [] s2 of
                (Inl e, s3) \<Rightarrow> (Inl e, s3)
              | (Inr tag_info_response, s3) \<Rightarrow>
                  (case demand_summary w recent_questions tag_info_response s3 of
                     (Inl e, s4) \<Rightarrow> (Inl e, s4)
                   | (Inr v, s4) \<Rightarrow> (Inr v, emit (Sleep 100000) s4))))"

definition demand_round :: "world \<Rightarrow> string \<Rightarrow> session \<Rightarrow> entry \<times> session" where
  "demand_round w tech s =
     except_exception ''Error calculating metrics'' (demand_body w tech s)"

text \<open>\<^verbatim>\<open>StackOverflowCollector.get_tech_demand_metrics\<close> (stackoverflow.py, lines 239-284).\<close>

definition get_tech_demand_metrics ::
  "world \<Rightarrow> string list \<Rightarrow> session \<Rightarrow> (string \<times> entry) list \<times> session" where
  "get_tech_demand_metrics w tech_list s = for_each (demand_round w) tech_list [] s"

section \<open>The search-interest collector\<close>

text \<open>
  The \<^verbatim>\<open>pytrends\<close> library and \<^verbatim>\<open>pandas\<close> are not part of the repository.  A
  \<^verbatim>\<open>DataFrame\<close> is modelled by the length of its index and its labelled columns of
  integers.  A query is the payload handed to \<^verbatim>\<open>build_payload\<close> together with the fetch
  that follows it; \<open>answer lib n q\<close> is what the library does on the \<open>n\<close>-th query of a
  collector: an exception raised by either call, or the frame returned.
\<close>

record dataframe =
  index_length :: nat
  columns :: "(string \<times> int list) list"

datatype query =
    OverTime "string list" string string
  | ByRegion "string list" string string

record pytrends =
  answer :: "nat \<Rightarrow> query \<Rightarrow> exn + dataframe"
  wall_clock :: "nat \<Rightarrow> int"

datatype trends_event =
    Query query
  | Pause int
  | Report level string

record trends_session =
  queries :: nat
  readings :: nat
  history :: "trends_event list"

definition add_event :: "trends_event \<Rightarrow> trends_session \<Rightarrow> trends_session" where
  "add_event e s = s\<lparr>history := history s @ [e]\<rparr>"

definition read_clock :: "pytrends \<Rightarrow> trends_session \<Rightarrow> int \<times> trends_session" where
  "read_clock lib s = (wall_clock lib (readings s), s\<lparr>readings := Suc (readings s)\<rparr>)"

definition ask :: "pytrends \<Rightarrow> query \<Rightarrow> trends_session \<Rightarrow> (exn + dataframe) \<times> trends_session" where
  "ask lib q s = (answer lib (queries s) q, add_event (Query q) (s\<lparr>queries := Suc (queries s)\<rparr>))"

text \<open>\<^verbatim>\<open>pd.DataFrame()\<close> and \<^verbatim>\<open>df.empty\<close> (true when either axis has length 0).\<close>

definition empty_frame :: dataframe where
  "empty_frame = \<lparr>index_length = 0, columns = []\<rparr>"

definition is_empty :: "dataframe \<Rightarrow> bool" where
  "is_empty df = (index_length df = 0 \<or> columns df = [])"

definition labels :: "dataframe \<Rightarrow> string list" where
  "labels df = map fst (columns df)"

text \<open>\<^verbatim>\<open>df.drop(columns=['isPartial'])\<close>, applied when the label is present.\<close>

definition drop_is_partial :: "dataframe \<Rightarrow> dataframe" where
  "drop_is_partial df = df\<lparr>columns := filter (\<lambda>c. fst c \<noteq> ''isPartial'') (columns df)\<rparr>"

text \<open>
  \<^verbatim>\<open>GoogleTrendsCollector.get_interest_over_time\<close> (trends.py, lines 28-65).  Every
  exception is caught, so the method always returns a frame.
\<close>

definition get_interest_over_time ::
  "pytrends \<Rightarrow> string list \<Rightarrow> string \<Rightarrow> string \<Rightarrow> trends_session \<Rightarrow>
   dataframe \<times> trends_session" where
  "get_interest_over_time lib keywords timeframe geo s =
     (case ask lib (OverTime (take 5 keywords) timeframe geo) s of
        (Inl e, s1) \<Rightarrow> (empty_frame, add_event (Report Error ''Error fetching interest over time'') s1)
      | (Inr interest_df, s1) \<Rightarrow>
          (if \<not> is_empty interest_df then drop_is_partial interest_df else interest_df, s1))"

text \<open>\<^verbatim>\<open>GoogleTrendsCollector.get_interest_by_region\<close> (trends.py, lines 67-98).\<close>

definition get_interest_by_region ::
  "pytrends \<Rightarrow> string list \<Rightarrow> string \<Rightarrow> string \<Rightarrow> trends_session \<Rightarrow>
   dataframe \<times> trends_session" where
  "get_interest_by_region lib keywords resolution timeframe s =
     (case ask lib (ByRegion (take 5 keywords) timeframe resolution) s of
        (Inl e, s1) \<Rightarrow> (empty_frame, add_event (Report Error ''Error fetching regional interest'') s1)
      | (Inr region_df, s1) \<Rightarrow> (region_df, s1))"

text \<open>
  \<^verbatim>\<open>series = df[tech]\<close> followed by the statistics of the series.  With a label that
  occurs twice the selection is a frame and the conversion to \<^verbatim>\<open>float\<close> raises; on a
  series without elements \<^verbatim>\<open>series.iloc[-1]\<close> raises.
\<close>

definition series_statistics :: "dataframe \<Rightarrow> string \<Rightarrow> exn + stat" where
  "series_statistics df tech =
     (case filter (\<lambda>c. fst c = tech) (columns df) of
        [c] \<Rightarrow> (if snd c = [] then Inl IndexError else Inr (SSeries (snd c)))
      | _ \<Rightarrow> Inl TypeError)"

text \<open>Lines 185-197 of trends.py: the keywords of one batch that are columns of the frame.\<close>

fun record_batch ::
  "dataframe \<Rightarrow> string list \<Rightarrow> (string \<times> stat) list \<Rightarrow> (exn option \<times> (string \<times> stat) list)" where
  "record_batch df [] technologies = (None, technologies)"
| "record_batch df (tech # batch) technologies =
     (if tech \<in> set (labels df) then
        (case series_statistics df tech of
           Inl e \<Rightarrow> (Some e, technologies)
         | Inr v \<Rightarrow> record_batch df batch (dict_set tech v technologies))
      else record_batch df batch technologies)"

text \<open>\<^verbatim>\<open>[tech_list[i:i+5] for i in range(0, len(tech_list), 5)]\<close>.\<close>

definition batches :: "'a list \<Rightarrow> 'a list list" where
  "batches tech_list =
     map (\<lambda>i. take 5 (drop i tech_list)) (filter (\<lambda>i. i mod 5 = 0) [0..<length tech_list])"

text \<open>One round of the loop of \<^verbatim>\<open>compare_technologies\<close> (trends.py, lines 174-203).\<close>

definition compare_batch ::
  "pytrends \<Rightarrow> string \<Rightarrow> string \<Rightarrow> string list \<Rightarrow> (string \<times> stat) list \<times> trends_session \<Rightarrow>
   (string \<times> stat) list \<times> trends_session" where
  "compare_batch lib timeframe geo batch acc =
     (case acc of (technologies, s) \<Rightarrow>
        (case get_interest_over_time lib batch timeframe geo s of (interest_df, s1) \<Rightarrow>
           (case (if \<not> is_empty interest_df then record_batch interest_df batch technologies
                  else (None, technologies)) of
              (None, technologies') \<Rightarrow> (technologies', add_event (Pause 1000000) s1)
            | (Some e, technologies') \<Rightarrow>
                (technologies', add_event (Report Error ''Error processing batch'') s1))))"

record comparison =
  cmp_timeframe :: string
  cmp_geo :: string
  cmp_timestamp :: int
  cmp_technologies :: "(string \<times> stat) list"

text \<open>\<^verbatim>\<open>GoogleTrendsCollector.compare_technologies\<close> (trends.py, lines 149-205).\<close>

definition compare_technologies ::
  "pytrends \<Rightarrow> string list \<Rightarrow> string \<Rightarrow> string \<Rightarrow> trends_session \<Rightarrow>
   comparison \<times> trends_session" where
  "compare_technologies lib tech_list timeframe geo s =
     (let (stamp, s1) = read_clock lib s;
          (technologies, s2) =
             foldl (\<lambda>acc batch. compare_batch lib timeframe geo batch acc) ([], s1)
               (batches tech_list)
      in (\<lparr>cmp_timeframe = timeframe, cmp_geo = geo, cmp_timestamp = stamp,
           cmp_technologies = technologies\<rparr>, s2))"

text \<open>
  The inner loop of \<^verbatim>\<open>get_tech_demand_trends\<close> (trends.py, lines 234-257): one query per
  period, with a pause of one second after each.
\<close>

fun trend_periods ::
  "pytrends \<Rightarrow> string \<Rightarrow> string list \<Rightarrow> (string \<times> stat) list \<Rightarrow> trends_session \<Rightarrow>
   (exn + (string \<times> stat) list) \<times> trends_session" where
  "trend_periods lib tech [] periods_data s = (Inr periods_data, s)"
| "trend_periods lib tech (period # periods) periods_data s =
     (case get_interest_over_time lib [tech] period [] s of (interest_df, s1) \<Rightarrow>
        (if \<not> is_empty interest_df \<and> tech \<in> set (labels interest_df) then
           (case series_statistics interest_df tech of
              Inl e \<Rightarrow> (Inl e, s1)
            | Inr v \<Rightarrow>
                trend_periods lib tech periods (dict_set period v periods_data)
                  (add_event (Pause 1000000) s1))
         else trend_periods lib tech periods periods_data (add_event (Pause 1000000) s1)))"

text \<open>The body of the \<^verbatim>\<open>try\<close> of \<^verbatim>\<open>get_tech_demand_trends\<close> (trends.py, lines 228-260).\<close>

definition trend_body ::
  "pytrends \<Rightarrow> string list \<Rightarrow> string \<Rightarrow> trends_session \<Rightarrow> (exn + entry) \<times> trends_session" where
  "trend_body lib periods tech s =
     (let (stamp, s1) = read_clock lib s
      in case trend_periods lib tech periods [] s1 of
           (Inl e, s2) \<Rightarrow> (Inl e, s2)
         | (Inr periods_data, s2) \<Rightarrow>
             (Inr (Some [(''name'', SStr tech), (''periods'', SDict periods_data),
                         (''timestamp'', STime stamp)]), s2))"

text \<open>The handler of lines 262-264 of trends.py: log, \<^verbatim>\<open>trends[tech] = None\<close>.\<close>

definition trends_except ::
  "string \<Rightarrow> (exn + 'v option) \<times> trends_session \<Rightarrow> 'v option \<times> trends_session" where
  "trends_except msg rs =
     (case rs of
        (Inl e, s) \<Rightarrow> (None, add_event (Report Error msg) s)
      | (Inr v, s) \<Rightarrow> (v, s))"

text \<open>One round of \<^verbatim>\<open>get_tech_demand_trends\<close> (trends.py, lines 227-264).\<close>

definition trend_round ::
  "pytrends \<Rightarrow> string list \<Rightarrow> string \<Rightarrow> trends_session \<Rightarrow> entry \<times> trends_session" where
  "trend_round lib periods tech s =
     trends_except ''Error calculating trends'' (trend_body lib periods tech s)"

text \<open>Lines 219-220 of trends.py: the periods of the caller, or the two default periods.\<close>

definition periods_or_default :: "string list option \<Rightarrow> string list" where
  "periods_or_default periods =
     (case periods of None \<Rightarrow> [''today 3-m'', ''today 12-m''] | Some ps \<Rightarrow> ps)"

text \<open>\<^verbatim>\<open>GoogleTrendsCollector.get_tech_demand_trends\<close> (trends.py, lines 207-266).\<close>

definition get_tech_demand_trends ::
  "pytrends \<Rightarrow> string list \<Rightarrow> string list option \<Rightarrow> trends_session \<Rightarrow>
   (string \<times> entry) list \<times> trends_session" where
  "get_tech_demand_trends lib tech_list periods s =
     for_each (trend_round lib (periods_or_default periods)) tech_list [] s"

section \<open>Notions used to state the properties\<close>

text \<open>
  The keys of a Python dict that was filled by assigning to \<open>keys\<close> in order: every key
  once, at the place of its first occurrence.
\<close>

fun first_occurrences :: "'a list \<Rightarrow> 'a list" where
  "first_occurrences [] = []"
| "first_occurrences (x # xs) = x # removeAll x (first_occurrences xs)"

text \<open>A body without items: \<^verbatim>\<open>body.get('items', [])\<close> is empty (or another false value).\<close>

definition no_items :: "json \<Rightarrow> bool" where
  "no_items body = (case py_get body ''items'' (JList []) of Inl e \<Rightarrow> False | Inr v \<Rightarrow> \<not> truthy v)"

text \<open>
  The time stamp an item carries under \<open>field\<close>, when the field is a string in the format
  of the service; and whether that time stamp is strictly greater than the cutoff.
\<close>

definition timestamp_of :: "world \<Rightarrow> string \<Rightarrow> json \<Rightarrow> int option" where
  "timestamp_of w field x =
     (case py_get x field (JStr []) of Inr (JStr text) \<Rightarrow> strptime w text | _ \<Rightarrow> None)"

definition after :: "world \<Rightarrow> string \<Rightarrow> int \<Rightarrow> json \<Rightarrow> bool" where
  "after w field cutoff x =
     (case timestamp_of w field x of Some t \<Rightarrow> cutoff < t | None \<Rightarrow> False)"

text \<open>The queries recorded in a history, in order.\<close>

fun asked :: "trends_event list \<Rightarrow> query list" where
  "asked [] = []"
| "asked (Query q # events) = q # asked events"
| "asked (e # events) = asked events"

text \<open>
  The column labels that \<^verbatim>\<open>compare_technologies\<close> can see in an answer of the library:
  none when the library raised or the frame is empty, otherwise the labels of the frame
  other than \<^verbatim>\<open>isPartial\<close>.
\<close>

definition visible :: "exn + dataframe \<Rightarrow> string list" where
  "visible a =
     (case a of
        Inl e \<Rightarrow> []
      | Inr df \<Rightarrow> if is_empty df then [] else labels (drop_is_partial df))"

text \<open>
  The column that \<^verbatim>\<open>compare_technologies\<close> can see under a label in an answer of the
  library; and the results of one chunk: for every keyword of the chunk that is such a
  column, the statistics of the column.
\<close>

definition visible_column :: "exn + dataframe \<Rightarrow> string \<Rightarrow> int list option" where
  "visible_column a k =
     (case a of
        Inl e \<Rightarrow> None
      | Inr df \<Rightarrow> if is_empty df then None else map_of (columns (drop_is_partial df)) k)"

definition chunk_results :: "string list \<Rightarrow> exn + dataframe \<Rightarrow> string \<Rightarrow> stat option" where
  "chunk_results chunk a k =
     (if k \<in> set chunk then map_option SSeries (visible_column a k) else None)"

text \<open>
  A frame as pandas builds it from the library's data: no label twice, and every column
  as long as the index.
\<close>

definition regular :: "exn + dataframe \<Rightarrow> bool" where
  "regular a =
     (case a of
        Inl e \<Rightarrow> True
      | Inr df \<Rightarrow>
          distinct (labels df) \<and> list_all (\<lambda>c. length (snd c) = index_length df) (columns df))"

text \<open>
  Two runs see the same environment: collector \<open>s\<close> in world \<open>w\<close> and collector \<open>s'\<close> in
  world \<open>w'\<close> hold the same credential and the same reset time, the dates are parsed
  alike, the interpreter is the same, and from now on the two services give the same
  answers, request by request, and the two clocks the same readings.
\<close>

definition aligned :: "world \<Rightarrow> world \<Rightarrow> session \<Rightarrow> session \<Rightarrow> bool" where
  "aligned w w' s s' =
     (credential s = credential s' \<and> rate_limit_reset s = rate_limit_reset s' \<and>
      strptime w = strptime w' \<and>
      in_datetime_range w = in_datetime_range w' \<and> longest_sleep w = longest_sleep w' \<and>
      recursion_limit w = recursion_limit w' \<and>
      (\<forall>i endpoint ps. service w (requests s + i) endpoint ps =
                         service w' (requests s' + i) endpoint ps) \<and>
      (\<forall>j. clock w (ticks s + j) = clock w' (ticks s' + j)))"

text \<open>
  Two runs end alike: both give the same value (or raise the same exception) and leave
  collectors that are related by \<open>R\<close>.
\<close>

definition same_outcome :: "('s \<Rightarrow> 's \<Rightarrow> bool) \<Rightarrow> 'a \<times> 's \<Rightarrow> 'a \<times> 's \<Rightarrow> bool" where
  "same_outcome R x y = (fst x = fst y \<and> R (snd x) (snd y))"

text \<open>Two attempts in step end alike, or go on alike.\<close>

definition attempts_agree :: "world \<Rightarrow> world \<Rightarrow> attempt \<Rightarrow> attempt \<Rightarrow> bool" where
  "attempts_agree w w' x y =
     (case x of
        Ends res \<Rightarrow> (case y of Ends res' \<Rightarrow> same_outcome (aligned w w') res res' | Retries t \<Rightarrow> False)
      | Retries s \<Rightarrow> (case y of Ends res' \<Rightarrow> False | Retries t \<Rightarrow> aligned w w' s t))"

text \<open>The same for two runs of the search-interest collector.\<close>

definition aligned_queries ::
  "pytrends \<Rightarrow> pytrends \<Rightarrow> trends_session \<Rightarrow> trends_session \<Rightarrow> bool" where
  "aligned_queries lib lib' s s' =
     ((\<forall>i q. answer lib (queries s + i) q = answer lib' (queries s' + i) q) \<and>
      (\<forall>j. wall_clock lib (readings s + j) = wall_clock lib' (readings s' + j)))"

section \<open>Concrete sessions and environments\<close>

text \<open>
  \<^verbatim>\<open>GitHubCollector.__init__\<close> and \<^verbatim>\<open>StackOverflowCollector.__init__\<close>: the fields of a
  fresh collector.
\<close>

definition gh_init :: "string option \<Rightarrow> session" where
  "gh_init token =
     \<lparr>credential = token, rate_limit_remaining = 60, rate_limit_reset = None,
      requests = 0, ticks = 0, trace = []\<rparr>"

definition so_init :: "string option \<Rightarrow> session" where
  "so_init api_key =
     \<lparr>credential = api_key, rate_limit_remaining = 300, rate_limit_reset = None,
      requests = 0, ticks = 0, trace = []\<rparr>"

text \<open>A response with the given status and body and no rate-limit header.\<close>

definition plain_response :: "int \<Rightarrow> json \<Rightarrow> response" where
  "plain_response code body =
     \<lparr>status_code = code, x_ratelimit_remaining = None, x_ratelimit_reset = None,
      content_encoding_gzip = False, json_body = Inr body, gunzip_body = Inl OtherException\<rparr>"

text \<open>
  The interpreter of the examples: \<^verbatim>\<open>fromtimestamp\<close> accepts the years 1 to 9999,
  \<^verbatim>\<open>time.sleep\<close> a wait of up to \<open>2\<^sup>6\<^sup>3 - 1\<close> nanoseconds, and 985 nested calls are
  allowed.
\<close>

definition year_1_to_9999 :: "int \<Rightarrow> bool" where
  "year_1_to_9999 n = (- 62135596800 \<le> n \<and> n \<le> 253402300799)"

text \<open>A service that answers every request with the same outcome.\<close>

definition constant_world :: "outcome \<Rightarrow> world" where
  "constant_world out =
     \<lparr>service = (\<lambda>n endpoint ps. out), clock = (\<lambda>k. 0), strptime = (\<lambda>text. None),
      strftime = (\<lambda>t. []), in_datetime_range = year_1_to_9999,
      longest_sleep = 9223372036854775, recursion_limit = 985\<rparr>"


text \<open>
  A service that answers the first requests from a script and every later request with
  \<open>final\<close>; the clock and the date parser are given.
\<close>

definition scripted ::
  "outcome list \<Rightarrow> outcome \<Rightarrow> (nat \<Rightarrow> int) \<Rightarrow> (string \<Rightarrow> int option) \<Rightarrow> world" where
  "scripted outs final clk parse =
     \<lparr>service = (\<lambda>n endpoint ps. if n < length outs then outs ! n else final),
      clock = clk, strptime = parse, strftime = (\<lambda>t. []), in_datetime_range = year_1_to_9999,
      longest_sleep = 9223372036854775, recursion_limit = 985\<rparr>"


text \<open>A clock that always reads the same time, and a date parser that rejects every text.\<close>

definition fixed_clock :: "int \<Rightarrow> nat \<Rightarrow> int" where
  "fixed_clock t k = t"

definition no_dates :: "string \<Rightarrow> int option" where
  "no_dates text = None"

text \<open>A service whose answer depends on the endpoint only.\<close>

definition routed :: "(string \<Rightarrow> outcome) \<Rightarrow> (nat \<Rightarrow> int) \<Rightarrow> (string \<Rightarrow> int option) \<Rightarrow> world" where
  "routed route clk parse =
     \<lparr>service = (\<lambda>n endpoint ps. route endpoint), clock = clk, strptime = parse,
      strftime = (\<lambda>t. []), in_datetime_range = year_1_to_9999,
      longest_sleep = 9223372036854775, recursion_limit = 985\<rparr>"

text \<open>A fresh \<^verbatim>\<open>GoogleTrendsCollector\<close> and a library that answers every query alike.\<close>

definition trends_init :: trends_session where
  "trends_init = \<lparr>queries = 0, readings = 0, history = []\<rparr>"

definition constant_library :: "exn + dataframe \<Rightarrow> pytrends" where
  "constant_library out = \<lparr>answer = (\<lambda>n q. out), wall_clock = (\<lambda>k. 0)\<rparr>"

text \<open>
  A date parser that knows two texts, one second apart (the first instant of 2024 and
  the second after it, in microseconds since the epoch).
\<close>

definition two_dates :: "string \<Rightarrow> int option" where
  "two_dates text =
     (if text = ''2024-01-01T00:00:00Z'' then Some 1704067200000000
      else if text = ''2024-01-01T00:00:01Z'' then Some 1704067201000000
      else None)"

text \<open>
  A Stack Exchange service that has no recent question for any tag and knows five
  questions in all for every tag.
\<close>

definition quiet_tag :: "string \<Rightarrow> outcome" where
  "quiet_tag endpoint =
     (if endpoint = ''/questions''
      then Responds (plain_response 200 (JDict [(''items'', JList []), (''has_more'', JBool False)]))
      else Responds (plain_response 200
             (JDict [(''items'', JList [JDict [(''count'', JInt 5)]]), (''has_more'', JBool False)])))"

text \<open>
  A library whose first answer is a frame with a column for \<^verbatim>\<open>a\<close> and no row, and whose
  later answers are empty frames; and twelve keywords.
\<close>

definition rowless_library :: pytrends where
  "rowless_library =
     \<lparr>answer = (\<lambda>n q. if n = 0 then Inr \<lparr>index_length = 0, columns = [(''a'', [])]\<rparr>
                       else Inr empty_frame),
      wall_clock = (\<lambda>k. 0)\<rparr>"

definition twelve_keywords :: "string list" where
  "twelve_keywords =
     [''a'', ''b'', ''c'', ''d'', ''e'', ''f'', ''g'', ''h'', ''i'', ''j'', ''k'', ''l'']"

text \<open>
  A library that knows two weeks of interest for every keyword of a query except
  \<^verbatim>\<open>c\<close>, and marks no week as partial.
\<close>

definition two_week_library :: pytrends where
  "two_week_library =
     \<lparr>answer = (\<lambda>n q. case q of
                  OverTime kw_list timeframe geo \<Rightarrow>
                    Inr \<lparr>index_length = 2,
                         columns = map (\<lambda>kw. (kw, [40, 60])) (filter (\<lambda>kw. kw \<noteq> ''c'') kw_list) @
                                   [(''isPartial'', [0, 0])]\<rparr>
                | ByRegion kw_list timeframe resolution \<Rightarrow> Inl OtherException),
      wall_clock = (\<lambda>k. 0)\<rparr>"

text \<open>
  A GitHub service that knows one repository, created one second after the first
  instant of 2024; and two instants, two seconds apart, thirty days later.
\<close>

definition one_repository :: outcome where
  "one_repository =
     Responds (plain_response 200
       (JDict [(''items'',
          JList [JDict [(''stargazers_count'', JInt 7),
                        (''created_at'', JStr ''2024-01-01T00:00:01Z'')]])]))"

definition first_run_time :: int where
  "first_run_time = 1706659200000000"

definition second_run_time :: int where
  "second_run_time = 1706659202000000"

text \<open>Twelve keywords of which the last is \<^verbatim>\<open>isPartial\<close>.\<close>

definition marked_keywords :: "string list" where
  "marked_keywords =
     [''a'', ''b'', ''c'', ''d'', ''e'', ''f'', ''g'', ''h'', ''i'', ''j'', ''k'', ''isPartial'']"

text \<open>
  A library whose every answer is a frame of two weeks with two columns labelled
  \<^verbatim>\<open>rust\<close>.
\<close>

definition doubled_library :: pytrends where
  "doubled_library =
     constant_library
       (Inr \<lparr>index_length = 2, columns = [(''rust'', [40, 60]), (''rust'', [50, 50])]\<rparr>)"

section \<open>Properties of the request executors\<close>

subsection \<open>The fields of a collector along a request\<close>

lemma requests_emit [simp]: "requests (emit e s) = requests s"
  by (simp add: emit_def)

lemma requests_sent [simp]: "requests (sent endpoint ps s) = Suc (requests s)"
  by (simp add: sent_def)

lemma trace_emit [simp]: "trace (emit e s) = trace s @ [e]"
  by (simp add: emit_def)

lemma trace_sent [simp]: "trace (sent endpoint ps s) = trace s @ [Get endpoint ps]"
  by (simp add: sent_def)

lemma ticks_emit [simp]: "ticks (emit e s) = ticks s"
  by (simp add: emit_def)

lemma ticks_sent [simp]: "ticks (sent endpoint ps s) = ticks s"
  by (simp add: sent_def)

lemma credential_emit [simp]: "credential (emit e s) = credential s"
  by (simp add: emit_def)

lemma credential_sent [simp]: "credential (sent endpoint ps s) = credential s"
  by (simp add: sent_def)

lemma rate_limit_reset_emit [simp]: "rate_limit_reset (emit e s) = rate_limit_reset s"
  by (simp add: emit_def)

lemma rate_limit_remaining_emit [simp]: "rate_limit_remaining (emit e s) = rate_limit_remaining s"
  by (simp add: emit_def)

lemma rate_limit_reset_sent [simp]: "rate_limit_reset (sent endpoint ps s) = rate_limit_reset s"
  by (simp add: sent_def)

lemma rate_limit_remaining_sent [simp]:
  "rate_limit_remaining (sent endpoint ps s) = rate_limit_remaining s"
  by (simp add: sent_def)

subsection \<open>Reading the rate-limit headers (GitHub)\<close>


lemma gh_update_fields [simp]:
  "requests (snd (gh_update_rate_limit w r s)) = requests s"
  "ticks (snd (gh_update_rate_limit w r s)) = ticks s"
  "trace (snd (gh_update_rate_limit w r s)) = trace s"
  "credential (snd (gh_update_rate_limit w r s)) = credential s"
  by (simp_all add: gh_update_rate_limit_def fromtimestamp_def Let_def split: option.splits)




subsection \<open>The sleep before a retry (GitHub)\<close>


lemma gh_wait_fields [simp]:
  "requests (snd (gh_wait w s)) = requests s"
  "credential (snd (gh_wait w s)) = credential s"
  "rate_limit_reset (snd (gh_wait w s)) = rate_limit_reset s"
  "rate_limit_remaining (snd (gh_wait w s)) = rate_limit_remaining s"
  by (simp_all add: gh_wait_def time_sleep_def now_def Let_def split: option.splits)



lemma ticks_gh_wait:
  "ticks (snd (gh_wait w s)) = (if rate_limit_reset s = None then ticks s else Suc (ticks s))"
  by (simp add: gh_wait_def time_sleep_def now_def Let_def split: option.splits)

subsection \<open>One attempt (GitHub)\<close>

lemma gh_attempt_raises:
  "service w (requests s) endpoint ps = Raises e \<Longrightarrow>
   gh_attempt w endpoint ps s = Ends (Inl e, sent endpoint ps s)"
  by (simp add: gh_attempt_def)







subsection \<open>The handler and the recursion (GitHub)\<close>

lemma gh_except_not_request_exception: "fst (gh_except rs) \<noteq> Inl RequestException"
  by (auto simp: gh_except_def split: prod.splits sum.splits exn.splits)


lemma gh_except_cases:
  "gh_except (r, s) = (r, s) \<or>
   gh_except (r, s) = (Inr (JDict []), emit (Log Error ''API request failed'') s)"
  by (auto simp: gh_except_def split: sum.splits exn.splits)


lemma gh_make_request_unfold:
  "gh_make_request w depth endpoint ps s =
     gh_except
       (case gh_attempt w endpoint ps s of
          Ends res \<Rightarrow> res
        | Retries s1 \<Rightarrow>
            (case depth of
               0 \<Rightarrow> (Inl RecursionError, s1)
             | Suc d \<Rightarrow> gh_make_request w d endpoint ps s1))"
  by (cases depth) (simp_all add: gh_make_request.simps split: attempt.splits)

lemma gh_make_request_not_request_exception:
  "fst (gh_make_request w depth endpoint ps s) \<noteq> Inl RequestException"
  by (cases depth) (simp_all add: gh_make_request.simps gh_except_not_request_exception)


lemma gh_ends:
  "gh_attempt w endpoint ps s = Ends res \<Longrightarrow>
   gh_make_request w depth endpoint ps s = gh_except res"
  by (cases depth) (simp_all add: gh_make_request.simps)







subsection \<open>Stack Overflow\<close>

lemma map_of_dict_set: "map_of (dict_set k v kvs) = (map_of kvs)(k \<mapsto> v)"
  by (induction kvs) (auto simp: fun_eq_iff)



lemma so_update_fields [simp]:
  "requests (so_update_rate_limit r s) = requests s"
  "ticks (so_update_rate_limit r s) = ticks s"
  "trace (so_update_rate_limit r s) = trace s"
  "credential (so_update_rate_limit r s) = credential s"
  "rate_limit_reset (so_update_rate_limit r s) = rate_limit_reset s"
  "rate_limit_remaining (so_update_rate_limit r s) =
     (case x_ratelimit_remaining r of None \<Rightarrow> 0 | Some n \<Rightarrow> n)"
  by (simp_all add: so_update_rate_limit_def)

lemma so_wait_fields [simp]:
  "requests (so_wait s) = requests s"
  "ticks (so_wait s) = ticks s"
  "credential (so_wait s) = credential s"
  "rate_limit_reset (so_wait s) = rate_limit_reset s"
  "rate_limit_remaining (so_wait s) = rate_limit_remaining s"
  by (simp_all add: so_wait_def)


lemma so_attempt_raises:
  "service w (requests s) endpoint ps = Raises e \<Longrightarrow>
   so_attempt w endpoint ps s = Ends (Inl e, sent endpoint ps s)"
  by (simp add: so_attempt_def)



lemma so_except_not_request_exception: "fst (so_except rs) \<noteq> Inl RequestException"
  by (auto simp: so_except_def split: prod.splits sum.splits exn.splits)


lemma so_except_cases:
  "so_except (r, s) = (r, s) \<or>
   so_except (r, s) = (Inr default_envelope, emit (Log Error ''API request failed'') s)"
  by (auto simp: so_except_def split: sum.splits exn.splits)


lemma so_make_request_unfold:
  "so_make_request w depth endpoint ps0 s =
     (let ps = so_params s ps0
      in so_except
           (case so_attempt w endpoint ps s of
              Ends res \<Rightarrow> res
            | Retries s1 \<Rightarrow>
                (case depth of
                   0 \<Rightarrow> (Inl RecursionError, s1)
                 | Suc d \<Rightarrow> so_make_request w d endpoint ps s1)))"
  by (cases depth) (simp_all add: so_make_request.simps Let_def split: attempt.splits)

lemma so_make_request_not_request_exception:
  "fst (so_make_request w depth endpoint ps s) \<noteq> Inl RequestException"
  by (cases depth) (simp_all add: so_make_request.simps so_except_not_request_exception Let_def)


lemma so_ends:
  "so_attempt w endpoint (so_params s ps) s = Ends res \<Longrightarrow>
   so_make_request w depth endpoint ps s = so_except res"
  by (cases depth) (simp_all add: so_make_request.simps Let_def)







subsection \<open>Persistent throttling and transport failures\<close>

lemma sleeps_append [simp]: "sleeps (xs @ ys) = sleeps xs @ sleeps ys"
  by (induction xs rule: sleeps.induct) simp_all

lemma waitable_None [simp]: "waitable w None"
  by (simp add: waitable_def gh_sleep_time_def accepts_sleep_def)







text \<open>
  Claim C7.  A \<^verbatim>\<open>RequestException\<close> raised by \<^verbatim>\<open>session.get\<close> does not reach the
  caller: \<^verbatim>\<open>GitHubCollector._make_request\<close> returns the empty mapping,
  \<^verbatim>\<open>StackOverflowCollector._make_request\<close> returns the envelope whose \<^verbatim>\<open>items\<close> is the
  empty list, the error is logged, and the rate-limit fields are left as they were.
  More generally no call of either function ever raises a \<^verbatim>\<open>RequestException\<close>.
\<close>

theorem transport_failure_returns_default:
  "(service w (requests s) endpoint ps = Raises RequestException \<longrightarrow>
      gh_make_request w depth endpoint ps s =
        (Inr (JDict []), emit (Log Error ''API request failed'') (sent endpoint ps s))) \<and>
   (service w (requests s) endpoint (so_params s ps) = Raises RequestException \<longrightarrow>
      so_make_request w depth endpoint ps s =
        (Inr (JDict [(''items'', JList []), (''has_more'', JBool False)]),
         emit (Log Error ''API request failed'') (sent endpoint (so_params s ps) s))) \<and>
   fst (gh_make_request w depth endpoint ps s) \<noteq> Inl RequestException \<and>
   fst (so_make_request w depth endpoint ps s) \<noteq> Inl RequestException"
proof (intro conjI impI)
  assume "service w (requests s) endpoint ps = Raises RequestException"
  then have "gh_attempt w endpoint ps s = Ends (Inl RequestException, sent endpoint ps s)"
    by (rule gh_attempt_raises)
  then show "gh_make_request w depth endpoint ps s =
        (Inr (JDict []), emit (Log Error ''API request failed'') (sent endpoint ps s))"
    by (simp add: gh_ends gh_except_def)
next
  assume "service w (requests s) endpoint (so_params s ps) = Raises RequestException"
  then have "so_attempt w endpoint (so_params s ps) s =
             Ends (Inl RequestException, sent endpoint (so_params s ps) s)"
    by (rule so_attempt_raises)
  then show "so_make_request w depth endpoint ps s =
        (Inr (JDict [(''items'', JList []), (''has_more'', JBool False)]),
         emit (Log Error ''API request failed'') (sent endpoint (so_params s ps) s))"
    by (simp add: so_ends so_except_def default_envelope_def)
next
  show "fst (gh_make_request w depth endpoint ps s) \<noteq> Inl RequestException"
    by (rule gh_make_request_not_request_exception)
next
  show "fst (so_make_request w depth endpoint ps s) \<noteq> Inl RequestException"
    by (rule so_make_request_not_request_exception)
qed

theorem transport_failure_returns_default_witness:
  "gh_make_request (constant_world (Raises RequestException)) 985 ''/search/repositories''
     [(''q'', PStr ''rust'')] (gh_init None) =
     (Inr (JDict []),
       \<lparr>credential = None, rate_limit_remaining = 60, rate_limit_reset = None,
        requests = 1, ticks = 0,
        trace = [Get ''/search/repositories'' [(''q'', PStr ''rust'')],
                 Log Error ''API request failed'']\<rparr>) \<and>
   so_make_request (constant_world (Raises RequestException)) 985 ''/questions''
     [(''tagged'', PStr ''rust'')] (so_init None) =
     (Inr (JDict [(''items'', JList []), (''has_more'', JBool False)]),
       \<lparr>credential = None, rate_limit_remaining = 300, rate_limit_reset = None,
        requests = 1, ticks = 0,
        trace = [Get ''/questions''
                   [(''tagged'', PStr ''rust''), (''site'', PStr ''stackoverflow'')],
                 Log Error ''API request failed'']\<rparr>)"
  using transport_failure_returns_default
      [of "constant_world (Raises RequestException)" "gh_init None"
          "''/search/repositories''" "[(''q'', PStr ''rust'')]" 985]
    transport_failure_returns_default
      [of "constant_world (Raises RequestException)" "so_init None"
          "''/questions''" "[(''tagged'', PStr ''rust'')]" 985]
  by (simp add: constant_world_def gh_init_def so_init_def so_params_def emit_def sent_def)

subsection \<open>Throttling: sleep, then the same request again\<close>






subsection \<open>A throttled call against an immediate answer\<close>


lemma gh_except_rate_limit [simp]:
  "rate_limit_remaining (snd (gh_except (x, a))) = rate_limit_remaining a"
  "rate_limit_reset (snd (gh_except (x, a))) = rate_limit_reset a"
  using gh_except_cases [of x a] by auto


lemma so_except_rate_limit [simp]:
  "rate_limit_remaining (snd (so_except (x, a))) = rate_limit_remaining a"
  "rate_limit_reset (snd (so_except (x, a))) = rate_limit_reset a"
  using so_except_cases [of x a] by auto








section \<open>Properties of the batch loops\<close>

subsection \<open>The order of keys and the last value of a key\<close>

lemma keys_dict_set:
  "map fst (dict_set k v kvs) =
     (if k \<in> set (map fst kvs) then map fst kvs else map fst kvs @ [k])"
  by (induction kvs) force+

lemma set_first_occurrences [simp]: "set (first_occurrences xs) = set xs"
  by (induction xs) auto

lemma distinct_first_occurrences [simp]: "distinct (first_occurrences xs)"
  by (induction xs) (auto simp: distinct_removeAll)

lemma first_occurrences_distinct: "distinct xs \<Longrightarrow> first_occurrences xs = xs"
  by (induction xs) simp_all

lemma filter_removeAll_absorb: "\<not> P k \<Longrightarrow> filter P (removeAll k xs) = filter P xs"
  by (induction xs) auto

lemma filter_removeAll_conj: "filter P (removeAll k xs) = filter (\<lambda>x. P x \<and> x \<noteq> k) xs"
  by (induction xs) auto

lemma key_set_dict_set: "set (map fst (dict_set k v kvs)) = insert k (set (map fst kvs))"
  by (auto simp: keys_dict_set)

lemma set_dict_set: "set (dict_set k v kvs) \<subseteq> insert (k, v) (set kvs)"
  by (induction kvs) (auto split: if_splits)

lemma for_each_keys:
  "map fst (fst (for_each step keys acc s)) =
     map fst acc @ filter (\<lambda>k. k \<notin> set (map fst acc)) (first_occurrences keys)"
proof (induction keys arbitrary: acc s)
  case Nil
  then show ?case by simp
next
  case (Cons k keys)
  obtain v s1 where step: "step k s = (v, s1)" by (cases "step k s")
  then have rest: "for_each step (k # keys) acc s = for_each step keys (dict_set k v acc) s1"
    by simp
  have IH: "map fst (fst (for_each step keys (dict_set k v acc) s1)) =
      map fst (dict_set k v acc) @
      filter (\<lambda>x. x \<noteq> k \<and> x \<notin> set (map fst acc)) (first_occurrences keys)"
    using Cons.IH [of "dict_set k v acc" s1]
    by (simp only: key_set_dict_set insert_iff de_Morgan_disj)
  show ?case
  proof (cases "k \<in> set (map fst acc)")
    case True
    then have 1: "map fst (dict_set k v acc) = map fst acc"
      by (simp only: keys_dict_set if_True)
    have 2: "filter (\<lambda>x. x \<noteq> k \<and> x \<notin> set (map fst acc)) (first_occurrences keys) =
             filter (\<lambda>x. x \<notin> set (map fst acc)) (first_occurrences keys)"
      using True by (intro filter_cong) auto
    have 3: "filter (\<lambda>x. x \<notin> set (map fst acc)) (first_occurrences (k # keys)) =
             filter (\<lambda>x. x \<notin> set (map fst acc)) (first_occurrences keys)"
      using True by (simp add: filter_removeAll_absorb)
    from IH 1 2 3 rest show ?thesis by simp
  next
    case False
    then have 1: "map fst (dict_set k v acc) = map fst acc @ [k]"
      by (simp only: keys_dict_set if_False)
    have 3: "filter (\<lambda>x. x \<notin> set (map fst acc)) (first_occurrences (k # keys)) =
             k # filter (\<lambda>x. x \<noteq> k \<and> x \<notin> set (map fst acc)) (first_occurrences keys)"
      using False by (simp add: filter_removeAll_conj conj_commute)
    from IH 1 3 rest show ?thesis by simp
  qed
qed

lemma for_each_keys_empty:
  "map fst (fst (for_each step keys [] s)) = first_occurrences keys"
  using for_each_keys [of step keys "[]" s] by simp

lemma for_each_append:
  "for_each step (xs @ ys) acc s =
     (case for_each step xs acc s of (acc', s') \<Rightarrow> for_each step ys acc' s')"
  by (induction xs arbitrary: acc s) (auto split: prod.splits)

lemma for_each_other_key:
  "k \<notin> set keys \<Longrightarrow> map_of (fst (for_each step keys acc s)) k = map_of acc k"
proof (induction keys arbitrary: acc s)
  case Nil
  then show ?case by simp
next
  case (Cons x keys)
  obtain v s1 where step: "step x s = (v, s1)" by (cases "step x s")
  from Cons.IH [of "dict_set x v acc" s1] Cons.prems step show ?case
    by (simp add: map_of_dict_set)
qed

text \<open>The value a batch leaves under a key is the value of the last round for that key.\<close>

lemma for_each_last:
  assumes "k \<notin> set post"
  shows "map_of (fst (for_each step (pre @ k # post) [] s)) k =
         Some (fst (step k (snd (for_each step pre [] s))))"
proof -
  obtain acc s1 where pre: "for_each step pre [] s = (acc, s1)"
    by (cases "for_each step pre [] s")
  obtain v s2 where step: "step k s1 = (v, s2)" by (cases "step k s1")
  from pre step have "for_each step (pre @ k # post) [] s =
      for_each step post (dict_set k v acc) s2"
    by (simp add: for_each_append)
  with for_each_other_key [OF assms, of step "dict_set k v acc" s2] pre step show ?thesis
    by (simp add: map_of_dict_set)
qed

text \<open>A property of the value of every round is a property of every entry of the result.\<close>

lemma for_each_all:
  assumes "\<And>k s. P k (fst (step k s))"
    and "\<forall>kv\<in>set acc. P (fst kv) (snd kv)"
  shows "\<forall>kv\<in>set (fst (for_each step keys acc s)). P (fst kv) (snd kv)"
  using assms(2)
proof (induction keys arbitrary: acc s)
  case Nil
  then show ?case by simp
next
  case (Cons k keys)
  obtain v s1 where step: "step k s = (v, s1)" by (cases "step k s")
  with assms(1) [of k s] have "P k v" by simp
  with Cons.prems set_dict_set [of k v acc]
  have "\<forall>kv\<in>set (dict_set k v acc). P (fst kv) (snd kv)" by auto
  from Cons.IH [OF this, of s1] step show ?case by simp
qed

lemma except_exception_raised [simp]:
  "except_exception msg (Inl e, s) = (None, emit (Log Error msg) s)"
  by (simp add: except_exception_def)

lemma except_exception_fst:
  "fst (except_exception msg rs) = (case fst rs of Inl e \<Rightarrow> None | Inr v \<Rightarrow> v)"
  by (cases rs) (simp add: except_exception_def split: sum.splits)

lemma trends_except_fst:
  "fst (trends_except msg rs) = (case fst rs of Inl e \<Rightarrow> None | Inr v \<Rightarrow> v)"
  by (cases rs) (simp add: trends_except_def split: sum.splits)

section \<open>Properties of the batch methods\<close>

subsection \<open>One entry per key\<close>

lemma queries_add_event [simp]: "queries (add_event e s) = queries s"
  by (simp add: add_event_def)

lemma readings_add_event [simp]: "readings (add_event e s) = readings s"
  by (simp add: add_event_def)

lemma failed_query:
  "isl (answer lib (queries s) (OverTime (take 5 keywords) timeframe geo)) \<Longrightarrow>
   fst (get_interest_over_time lib keywords timeframe geo s) = empty_frame \<and>
   queries (snd (get_interest_over_time lib keywords timeframe geo s)) = Suc (queries s)"
  by (auto simp: get_interest_over_time_def ask_def isl_def)

text \<open>
  When the library fails on every query of a round of \<^verbatim>\<open>get_tech_demand_trends\<close>, the
  round raises nothing and records no period.
\<close>

lemma trend_periods_failing:
  assumes "\<forall>n q. queries s \<le> n \<and> n < queries s + length periods \<longrightarrow> isl (answer lib n q)"
  shows "fst (trend_periods lib tech periods periods_data s) = Inr periods_data"
  using assms
proof (induction periods arbitrary: s)
  case Nil
  show ?case by simp
next
  case (Cons period periods)
  obtain df s1 where g: "get_interest_over_time lib [tech] period [] s = (df, s1)"
    by (cases "get_interest_over_time lib [tech] period [] s")
  have "isl (answer lib (queries s) (OverTime (take 5 [tech]) period []))"
    using Cons.prems by simp
  from failed_query [OF this] g have df: "df = empty_frame" and q: "queries s1 = Suc (queries s)"
    by simp_all
  have "\<forall>n q. queries (add_event (Pause 1000000) s1) \<le> n \<and>
          n < queries (add_event (Pause 1000000) s1) + length periods \<longrightarrow> isl (answer lib n q)"
    using Cons.prems q by simp
  from Cons.IH [OF this] g df show ?case
    by (simp add: is_empty_def empty_frame_def)
qed

lemma trend_round_failing:
  assumes "\<forall>n q. queries s \<le> n \<and> n < queries s + length periods \<longrightarrow> isl (answer lib n q)"
  shows "fst (trend_round lib periods tech s) =
         Some [(''name'', SStr tech), (''periods'', SDict []),
               (''timestamp'', STime (wall_clock lib (readings s)))]"
proof -
  let ?s1 = "snd (read_clock lib s)"
  have "queries ?s1 = queries s" by (simp add: read_clock_def)
  with assms have "\<forall>n q. queries ?s1 \<le> n \<and> n < queries ?s1 + length periods \<longrightarrow>
      isl (answer lib n q)"
    by simp
  from trend_periods_failing [OF this, of tech "[]"] show ?thesis
    by (auto simp: trend_round_def trend_body_def trends_except_def read_clock_def Let_def
        split: prod.splits sum.splits)
qed

text \<open>
  Claim C1, as the code has it.  Each batch method (\<^verbatim>\<open>get_language_stats\<close>,
  \<^verbatim>\<open>get_tech_popularity_metrics\<close>, \<^verbatim>\<open>get_tech_demand_metrics\<close>, \<^verbatim>\<open>get_tech_demand_trends\<close>)
  returns, for every list of keys and every behaviour of the service, a mapping whose
  keys are the input keys, each once, in the order in which they were given (a key
  given twice keeps the place of its first occurrence, as a Python dict does); for a
  list without repetition the keys of the result are the list itself.  A round whose
  \<^verbatim>\<open>try\<close> body raises leaves \<^verbatim>\<open>None\<close> under its key, and the keys after it are still
  processed.  A failure of the search-interest library is not such a failure:
  \<^verbatim>\<open>get_interest_over_time\<close> catches it, and when the library fails on every query of
  the last round for a key of \<^verbatim>\<open>get_tech_demand_trends\<close> the entry of that key is the
  placeholder with the name, no period and the time stamp, not \<^verbatim>\<open>None\<close>.
\<close>

theorem batch_result_has_one_entry_per_key:
  "map fst (fst (get_language_stats w keys s)) = first_occurrences keys \<and>
   map fst (fst (get_tech_popularity_metrics w keys s)) = first_occurrences keys \<and>
   map fst (fst (get_tech_demand_metrics w keys s)) = first_occurrences keys \<and>
   map fst (fst (get_tech_demand_trends lib keys periods ts)) = first_occurrences keys \<and>
   set (first_occurrences keys) = set keys \<and>
   distinct (first_occurrences keys) \<and>
   (distinct keys \<longrightarrow> first_occurrences keys = keys) \<and>
   (fst (language_stats_body w key (snd (get_language_stats w before s))) = Inl e \<and>
    key \<notin> set later \<longrightarrow>
      map_of (fst (get_language_stats w (before @ key # later) s)) key = Some None) \<and>
   (fst (popularity_body w key (snd (get_tech_popularity_metrics w before s))) = Inl e \<and>
    key \<notin> set later \<longrightarrow>
      map_of (fst (get_tech_popularity_metrics w (before @ key # later) s)) key = Some None) \<and>
   (fst (demand_body w key (snd (get_tech_demand_metrics w before s))) = Inl e \<and>
    key \<notin> set later \<longrightarrow>
      map_of (fst (get_tech_demand_metrics w (before @ key # later) s)) key = Some None) \<and>
   (fst (trend_body lib (periods_or_default periods) key
           (snd (get_tech_demand_trends lib before periods ts))) = Inl e \<and>
    key \<notin> set later \<longrightarrow>
      map_of (fst (get_tech_demand_trends lib (before @ key # later) periods ts)) key =
        Some None) \<and>
   ((\<forall>n q. queries (snd (get_tech_demand_trends lib before periods ts)) \<le> n \<and>
           n < queries (snd (get_tech_demand_trends lib before periods ts)) +
               length (periods_or_default periods) \<longrightarrow>
           isl (answer lib n q)) \<and>
    key \<notin> set later \<longrightarrow>
      map_of (fst (get_tech_demand_trends lib (before @ key # later) periods ts)) key =
        Some (Some [(''name'', SStr key), (''periods'', SDict []),
                    (''timestamp'',
                     STime (wall_clock lib
                       (readings (snd (get_tech_demand_trends lib before periods ts)))))]))"
proof (intro conjI impI)
  show "set (first_occurrences keys) = set keys" by simp
  show "distinct (first_occurrences keys)" by simp
  show "first_occurrences keys = keys" if "distinct keys"
    using that by (rule first_occurrences_distinct)
  show "map fst (fst (get_language_stats w keys s)) = first_occurrences keys"
    unfolding get_language_stats_def by (rule for_each_keys_empty)
  show "map fst (fst (get_tech_popularity_metrics w keys s)) = first_occurrences keys"
    unfolding get_tech_popularity_metrics_def by (rule for_each_keys_empty)
  show "map fst (fst (get_tech_demand_metrics w keys s)) = first_occurrences keys"
    unfolding get_tech_demand_metrics_def by (rule for_each_keys_empty)
  show "map fst (fst (get_tech_demand_trends lib keys periods ts)) = first_occurrences keys"
    unfolding get_tech_demand_trends_def by (rule for_each_keys_empty)
next
  assume a: "fst (language_stats_body w key (snd (get_language_stats w before s))) = Inl e \<and>
    key \<notin> set later"
  then have "key \<notin> set later" by simp
  from for_each_last [OF this, of "language_stats_round w" before s] a
  show "map_of (fst (get_language_stats w (before @ key # later) s)) key = Some None"
    by (simp add: get_language_stats_def language_stats_round_def except_exception_fst)
next
  assume a: "fst (popularity_body w key (snd (get_tech_popularity_metrics w before s))) = Inl e \<and>
    key \<notin> set later"
  then have "key \<notin> set later" by simp
  from for_each_last [OF this, of "popularity_round w" before s] a
  show "map_of (fst (get_tech_popularity_metrics w (before @ key # later) s)) key = Some None"
    by (simp add: get_tech_popularity_metrics_def popularity_round_def except_exception_fst)
next
  assume a: "fst (demand_body w key (snd (get_tech_demand_metrics w before s))) = Inl e \<and>
    key \<notin> set later"
  then have "key \<notin> set later" by simp
  from for_each_last [OF this, of "demand_round w" before s] a
  show "map_of (fst (get_tech_demand_metrics w (before @ key # later) s)) key = Some None"
    by (simp add: get_tech_demand_metrics_def demand_round_def except_exception_fst)
next
  assume a: "fst (trend_body lib (periods_or_default periods) key
           (snd (get_tech_demand_trends lib before periods ts))) = Inl e \<and>
    key \<notin> set later"
  then have "key \<notin> set later" by simp
  from for_each_last [OF this, of "trend_round lib (periods_or_default periods)" before ts] a
  show "map_of (fst (get_tech_demand_trends lib (before @ key # later) periods ts)) key =
        Some None"
    by (simp add: get_tech_demand_trends_def trend_round_def trends_except_fst)
next
  let ?ts1 = "snd (get_tech_demand_trends lib before periods ts)"
  assume a: "(\<forall>n q. queries ?ts1 \<le> n \<and> n < queries ?ts1 + length (periods_or_default periods) \<longrightarrow>
           isl (answer lib n q)) \<and>
    key \<notin> set later"
  then have later: "key \<notin> set later"
    and fails: "\<forall>n q. queries ?ts1 \<le> n \<and> n < queries ?ts1 + length (periods_or_default periods) \<longrightarrow>
           isl (answer lib n q)"
    by simp_all
  from for_each_last [OF later, of "trend_round lib (periods_or_default periods)" before ts]
    trend_round_failing [OF fails, of key]
  show "map_of (fst (get_tech_demand_trends lib (before @ key # later) periods ts)) key =
        Some (Some [(''name'', SStr key), (''periods'', SDict []),
                    (''timestamp'', STime (wall_clock lib (readings ?ts1)))])"
    by (simp add: get_tech_demand_trends_def)
qed

lemma str_int_10: "str_int 10 = ''10''"
  by (simp add: str_int_def digits.simps [of 10] digits.simps [of "Suc 0"])

theorem batch_result_has_one_entry_per_key_witness:
  "fst (get_language_stats
     (constant_world (Responds (plain_response 200
        (JDict [(''items'', JList [JDict [(''stargazers_count'', JInt 5)]])]))))
     [''rust'', ''go'', ''rust''] (gh_init None)) =
     [(''rust'', None), (''go'', None)] \<and>
   fst (get_tech_popularity_metrics
     (constant_world (Responds (plain_response 200
        (JDict [(''items'', JList [JDict [(''stargazers_count'', JInt 5)]])]))))
     [''rust'', ''go'', ''rust''] (gh_init None)) =
     [(''rust'', None), (''go'', None)] \<and>
   fst (get_tech_demand_metrics
     (constant_world (Responds (plain_response 200 (JDict [(''items'', JList [])]))))
     [''rust'', ''go'', ''rust''] (so_init None)) =
     [(''rust'', None), (''go'', None)] \<and>
   fst (get_tech_demand_trends doubled_library [''rust'', ''go'', ''rust''] None trends_init) =
     [(''rust'', None),
      (''go'', Some [(''name'', SStr ''go''), (''periods'', SDict []),
                     (''timestamp'', STime 0)])] \<and>
   map_of (fst (get_tech_demand_trends (constant_library (Inl OtherException))
     [''rust'', ''go'', ''rust''] None trends_init)) ''rust'' =
     Some (Some [(''name'', SStr ''rust''), (''periods'', SDict []), (''timestamp'', STime 0)])"
proof -
  let ?w1 = "constant_world (Responds (plain_response 200
        (JDict [(''items'', JList [JDict [(''stargazers_count'', JInt 5)]])])))"
  let ?w2 = "constant_world (Responds (plain_response 200 (JDict [(''items'', JList [])])))"
  note defs = get_language_stats_def language_stats_round_def language_stats_body_def
      search_repositories_def language_summary_def
      get_tech_popularity_metrics_def popularity_round_def popularity_body_def
      popularity_summary_def
      get_tech_demand_metrics_def demand_round_def demand_body_def demand_summary_def
      get_tag_questions_def
      get_tech_demand_trends_def trend_round_def trend_body_def trends_except_def
      periods_or_default_def get_interest_over_time_def ask_def
      read_clock_def add_event_def empty_frame_def is_empty_def labels_def
      drop_is_partial_def series_statistics_def
      constant_library_def doubled_library_def trends_init_def
      gh_make_request_unfold so_make_request_unfold gh_attempt_def so_attempt_def
      constant_world_def plain_response_def gh_init_def so_init_def so_params_def
      gh_update_rate_limit_def so_update_rate_limit_def so_decode_def gh_pause_def
      raise_for_status_def gh_except_def so_except_def sent_def emit_def now_def
      except_exception_def and_then_def newer_than_def py_truediv_def str_int_10
      Let_def days_def seconds_def
  have 1: "fst (get_language_stats ?w1 [''rust'', ''go'', ''rust''] (gh_init None)) =
     [(''rust'', None), (''go'', None)]"
    using batch_result_has_one_entry_per_key
      [where w = ?w1 and keys = "[''rust'', ''go'', ''rust'']" and s = "gh_init None"
         and before = "[''rust'', ''go'']" and key = "''rust''" and later = "[]"
         and e = ValueError, THEN conjunct2, THEN conjunct2, THEN conjunct2, THEN conjunct2,
       THEN conjunct2, THEN conjunct2, THEN conjunct2, THEN conjunct1, THEN mp]
    by (simp add: defs)
  have 2: "fst (get_tech_popularity_metrics ?w1 [''rust'', ''go'', ''rust''] (gh_init None)) =
     [(''rust'', None), (''go'', None)]"
    using batch_result_has_one_entry_per_key
      [where w = ?w1 and keys = "[''rust'', ''go'', ''rust'']" and s = "gh_init None"
         and before = "[''rust'', ''go'']" and key = "''rust''" and later = "[]"
         and e = ValueError, THEN conjunct2, THEN conjunct2, THEN conjunct2, THEN conjunct2,
       THEN conjunct2, THEN conjunct2, THEN conjunct2, THEN conjunct2, THEN conjunct1, THEN mp]
    by (simp add: defs)
  have 3: "fst (get_tech_demand_metrics ?w2 [''rust'', ''go'', ''rust''] (so_init None)) =
     [(''rust'', None), (''go'', None)]"
    using batch_result_has_one_entry_per_key
      [where w = ?w2 and keys = "[''rust'', ''go'', ''rust'']" and s = "so_init None"
         and before = "[''rust'', ''go'']" and key = "''rust''" and later = "[]"
         and e = IndexError, THEN conjunct2, THEN conjunct2, THEN conjunct2, THEN conjunct2,
       THEN conjunct2, THEN conjunct2, THEN conjunct2, THEN conjunct2, THEN conjunct2,
       THEN conjunct1, THEN mp]
    by (simp add: defs)
  have 4: "fst (get_tech_demand_trends doubled_library [''rust'', ''go'', ''rust''] None
       trends_init) =
     [(''rust'', None),
      (''go'', Some [(''name'', SStr ''go''), (''periods'', SDict []),
                     (''timestamp'', STime 0)])]"
    using batch_result_has_one_entry_per_key
      [where lib = doubled_library and keys = "[''rust'', ''go'', ''rust'']"
         and periods = None and ts = trends_init
         and before = "[''rust'', ''go'']" and key = "''rust''" and later = "[]"
         and e = TypeError, THEN conjunct2, THEN conjunct2, THEN conjunct2, THEN conjunct2,
       THEN conjunct2, THEN conjunct2, THEN conjunct2, THEN conjunct2, THEN conjunct2,
       THEN conjunct2, THEN conjunct1, THEN mp]
    by (simp add: defs)
  have 5: "map_of (fst (get_tech_demand_trends (constant_library (Inl OtherException))
     [''rust'', ''go'', ''rust''] None trends_init)) ''rust'' =
     Some (Some [(''name'', SStr ''rust''), (''periods'', SDict []), (''timestamp'', STime 0)])"
    using batch_result_has_one_entry_per_key
      [where lib = "constant_library (Inl OtherException)"
         and keys = "[''rust'', ''go'', ''rust'']"
         and periods = None and ts = trends_init
         and before = "[''rust'', ''go'']" and key = "''rust''" and later = "[]",
       THEN conjunct2, THEN conjunct2, THEN conjunct2, THEN conjunct2,
       THEN conjunct2, THEN conjunct2, THEN conjunct2, THEN conjunct2, THEN conjunct2,
       THEN conjunct2, THEN conjunct2, THEN mp]
    by (simp add: constant_library_def)
  from 1 2 3 4 5 show ?thesis by simp
qed

text \<open>
  Claim C1 as stated fails for \<^verbatim>\<open>get_tech_demand_trends\<close>: when the library fails on
  every query, each failure is logged by \<^verbatim>\<open>get_interest_over_time\<close>, and the entry of
  every key is the placeholder without periods, not \<^verbatim>\<open>None\<close>.
\<close>

theorem failed_library_call_counterexample:
  "fst (get_tech_demand_trends (constant_library (Inl OtherException))
     [''rust'', ''go''] None trends_init) =
     [(''rust'', Some [(''name'', SStr ''rust''), (''periods'', SDict []),
                       (''timestamp'', STime 0)]),
      (''go'', Some [(''name'', SStr ''go''), (''periods'', SDict []),
                     (''timestamp'', STime 0)])] \<and>
   history (snd (get_tech_demand_trends (constant_library (Inl OtherException))
     [''rust''] None trends_init)) =
     [Query (OverTime [''rust''] ''today 3-m'' []),
      Report Error ''Error fetching interest over time'', Pause 1000000,
      Query (OverTime [''rust''] ''today 12-m'' []),
      Report Error ''Error fetching interest over time'', Pause 1000000]"
  by (simp add: get_tech_demand_trends_def trend_round_def trend_body_def trends_except_def
      periods_or_default_def get_interest_over_time_def ask_def read_clock_def add_event_def
      empty_frame_def is_empty_def constant_library_def trends_init_def Let_def)

subsection \<open>The cutoff of the recent counts\<close>

lemma and_then_Inr_iff:
  "(and_then x f = Inr y) = (\<exists>a. x = Inr a \<and> f a = Inr y)"
  by (cases x) (auto simp: and_then_def)

lemma newer_than_after:
  assumes "newer_than w field cutoff x = Inr b"
  shows "b = after w field cutoff x"
proof -
  from assms obtain v where v: "py_get x field (JStr []) = Inr v" and
    r: "(case v of
           JStr text \<Rightarrow>
             (case strptime w text of None \<Rightarrow> Inl ValueError | Some t \<Rightarrow> Inr (t > cutoff))
         | _ \<Rightarrow> Inl TypeError) = Inr b"
    by (auto simp: newer_than_def and_then_Inr_iff)
  from r obtain str t where "v = JStr str" "strptime w str = Some t" "b = (t > cutoff)"
    by (cases v) (auto split: option.splits)
  with v show ?thesis by (simp add: after_def timestamp_of_def)
qed

lemma count_newer_length:
  "count_newer w field cutoff xs = Inr n \<Longrightarrow>
   n = length (filter (after w field cutoff) xs)"
proof (induction xs arbitrary: n)
  case Nil
  then show ?case by simp
next
  case (Cons x xs)
  from Cons.prems obtain b m where
    b: "newer_than w field cutoff x = Inr b" and
    m: "count_newer w field cutoff xs = Inr m" and
    n: "n = (if b then Suc m else m)"
    by (auto simp: and_then_Inr_iff)
  from Cons.IH [OF m] newer_than_after [OF b] n show ?case by simp
qed

lemma count_newer_boundary:
  assumes "timestamp_of w field x = Some cutoff"
  shows "count_newer w field cutoff (x # xs) = count_newer w field cutoff xs"
proof -
  from assms have "newer_than w field cutoff x = Inr False"
    by (auto simp: newer_than_def timestamp_of_def and_then_def
        split: sum.splits json.splits option.splits)
  then show ?thesis
    by (cases "count_newer w field cutoff xs") (simp_all add: and_then_def)
qed

lemma language_summary_recent:
  assumes "language_summary w repos s = (Inr (Some e), s')"
  shows "\<exists>items. py_iter repos = Inr items \<and>
     map_of e ''recent_repos'' =
       Some (SInt (int (length (filter (after w ''created_at'' (clock w (ticks s) - days 30)) items))))"
  using assms
  by (auto simp: language_summary_def and_then_Inr_iff now_def Let_def
      split: sum.splits prod.splits dest!: count_newer_length)

lemma popularity_summary_recent:
  assumes "popularity_summary w repos s = (Inr (Some e), s')"
  shows "\<exists>items. py_iter repos = Inr items \<and>
     map_of e ''recent_activity'' =
       Some (SInt (int (length (filter (after w ''updated_at'' (clock w (ticks s) - days 7)) items))))"
  using assms
  by (auto simp: popularity_summary_def and_then_Inr_iff now_def Let_def
      split: sum.splits prod.splits dest!: count_newer_length)

text \<open>
  Claim C4.  \<^verbatim>\<open>recent_repos\<close> of \<^verbatim>\<open>get_language_stats\<close> is the number of repositories whose
  \<^verbatim>\<open>created_at\<close> is strictly greater than the reading of the clock minus 30 days, and
  \<^verbatim>\<open>recent_activity\<close> of \<^verbatim>\<open>get_tech_popularity_metrics\<close> is the number of repositories
  whose \<^verbatim>\<open>updated_at\<close> is strictly greater than the reading of the clock minus 7 days.
  An item whose time stamp equals the cutoff is not counted.
\<close>

theorem recent_counts_exclude_the_cutoff:
  "(language_summary w repos s = (Inr (Some e), s') \<longrightarrow>
      (\<exists>items. py_iter repos = Inr items \<and>
         map_of e ''recent_repos'' =
           Some (SInt (int (length
             (filter (after w ''created_at'' (clock w (ticks s) - days 30)) items)))))) \<and>
   (popularity_summary w repos s = (Inr (Some e), s') \<longrightarrow>
      (\<exists>items. py_iter repos = Inr items \<and>
         map_of e ''recent_activity'' =
           Some (SInt (int (length
             (filter (after w ''updated_at'' (clock w (ticks s) - days 7)) items)))))) \<and>
   (timestamp_of w field x = Some t \<longrightarrow> after w field cutoff x = (cutoff < t)) \<and>
   (timestamp_of w field x = Some cutoff \<longrightarrow>
      \<not> after w field cutoff x \<and>
      count_newer w field cutoff (x # xs) = count_newer w field cutoff xs)"
  using language_summary_recent [of w repos s e s'] popularity_summary_recent [of w repos s e s']
    count_newer_boundary [of w field x cutoff xs]
  by (auto simp: after_def)

theorem recent_counts_exclude_the_cutoff_witness:
  "fst (language_summary
     (scripted [] (Raises OtherException) (fixed_clock (1704067200000000 + days 30)) two_dates)
     (JList [JDict [(''stargazers_count'', JInt 7), (''created_at'', JStr ''2024-01-01T00:00:00Z'')],
             JDict [(''stargazers_count'', JInt 3), (''created_at'', JStr ''2024-01-01T00:00:01Z'')]])
     (gh_init None)) =
   Inr (Some [(''total_repos'', SInt 2), (''total_stars'', SInt 10), (''total_forks'', SInt 0),
              (''total_watchers'', SInt 0), (''avg_stars'', SFloat (TrueDiv 10 2)),
              (''recent_repos'', SInt 1), (''timestamp'', STime 1706659200000000)]) \<and>
   \<not> after
     (scripted [] (Raises OtherException) (fixed_clock (1704067200000000 + days 30)) two_dates)
     ''created_at'' 1704067200000000
     (JDict [(''stargazers_count'', JInt 7), (''created_at'', JStr ''2024-01-01T00:00:00Z'')])"
  using recent_counts_exclude_the_cutoff
      [of "scripted [] (Raises OtherException) (fixed_clock (1704067200000000 + days 30)) two_dates"
          "JList [JDict [(''stargazers_count'', JInt 7), (''created_at'', JStr ''2024-01-01T00:00:00Z'')],
             JDict [(''stargazers_count'', JInt 3), (''created_at'', JStr ''2024-01-01T00:00:01Z'')]]"
          "gh_init None" _ _ "''created_at''"
          "JDict [(''stargazers_count'', JInt 7), (''created_at'', JStr ''2024-01-01T00:00:00Z'')]"
          1704067200000000 1704067200000000]
  by (simp add: language_summary_def scripted_def fixed_clock_def two_dates_def gh_init_def
      and_then_def newer_than_def py_truediv_def now_def Let_def days_def seconds_def
      after_def timestamp_of_def)

subsection \<open>Keys without data\<close>

lemma language_stats_round_no_items:
  assumes req: "gh_make_request w (recursion_limit w - 1) ''/search/repositories''
      [(''q'', PStr (''language:'' @ language @ '' stars:>=10'')), (''sort'', PStr ''stars''),
       (''order'', PStr ''desc''), (''per_page'', PInt 100)] s = (Inr body, s1)"
    and empty: "no_items body"
  shows "fst (language_stats_round w language s) = None"
proof -
  from empty obtain v where v: "py_get body ''items'' (JList []) = Inr v" "\<not> truthy v"
    by (auto simp: no_items_def split: sum.splits)
  show ?thesis
  proof (cases "py_len v")
    case (Inl e)
    with req v show ?thesis
      by (simp add: language_stats_round_def language_stats_body_def search_repositories_def
          str_int_10 and_then_def)
  next
    case (Inr n)
    with req v show ?thesis
      by (simp add: language_stats_round_def language_stats_body_def search_repositories_def
          str_int_10 and_then_def except_exception_def)
  qed
qed

lemma popularity_round_no_items:
  assumes req: "gh_make_request w (recursion_limit w) ''/search/repositories''
      [(''q'', PStr tech), (''sort'', PStr ''stars''), (''per_page'', PInt 100)] s =
      (Inr body, s1)"
    and empty: "no_items body"
  shows "fst (popularity_round w tech s) = None"
proof -
  from empty obtain v where v: "py_get body ''items'' (JList []) = Inr v" "\<not> truthy v"
    by (auto simp: no_items_def split: sum.splits)
  with req show ?thesis
    by (simp add: popularity_round_def popularity_body_def and_then_def except_exception_def)
qed

lemma average_field_no_questions: "average_field field (JList []) = Inr (TrueDiv 0 1)"
  by (simp add: average_field_def and_then_def py_truediv_def)

lemma demand_round_no_tag_info:
  assumes q: "get_tag_questions w tech (Some (clock w (ticks s) - days 7)) None 100
      (snd (now w s)) = (Inr questions, s1)"
    and info: "so_make_request w (recursion_limit w) (''/tags/'' @ tech @ ''/info'') [] s1 =
      (Inr response, s2)"
    and items: "py_get response ''items'' (JList [JDict []]) = Inr (JList [])"
  shows "fst (demand_round w tech s) = None"
proof -
  have "demand_summary w questions response s2 = (Inl IndexError, s2)"
    using items by (simp add: demand_summary_def and_then_def)
  with q info show ?thesis
    by (simp add: demand_round_def demand_body_def now_def)
qed

lemma demand_round_no_questions:
  assumes q: "get_tag_questions w tech (Some (clock w (ticks s) - days 7)) None 100
      (snd (now w s)) = (Inr (JList []), s1)"
    and info: "so_make_request w (recursion_limit w) (''/tags/'' @ tech @ ''/info'') [] s1 =
      (Inr response, s2)"
    and items: "py_get response ''items'' (JList [JDict []]) = Inr (JList (JDict tag_info # others))"
  shows "fst (demand_round w tech s) =
     Some [(''total_questions'',
              SJson (case map_of tag_info ''count'' of None \<Rightarrow> JInt 0 | Some v \<Rightarrow> v)),
           (''recent_questions'', SInt 0),
           (''avg_score'', SFloat (TrueDiv 0 1)),
           (''avg_answers'', SFloat (TrueDiv 0 1)),
           (''avg_views'', SFloat (TrueDiv 0 1)),
           (''last_activity'',
              SJson (case map_of tag_info ''last_activity_date'' of
                       None \<Rightarrow> JNull | Some v \<Rightarrow> v)),
           (''timestamp'', STime (clock w (ticks s2)))]"
proof -
  have summary: "demand_summary w (JList []) response s2 =
      (Inr (Some [(''total_questions'',
                    SJson (case map_of tag_info ''count'' of None \<Rightarrow> JInt 0 | Some v \<Rightarrow> v)),
                 (''recent_questions'', SInt 0),
                 (''avg_score'', SFloat (TrueDiv 0 1)),
                 (''avg_answers'', SFloat (TrueDiv 0 1)),
                 (''avg_views'', SFloat (TrueDiv 0 1)),
                 (''last_activity'',
                    SJson (case map_of tag_info ''last_activity_date'' of
                             None \<Rightarrow> JNull | Some v \<Rightarrow> v)),
                 (''timestamp'', STime (clock w (ticks s2)))]), snd (now w s2))"
    using items
    by (simp add: demand_summary_def and_then_def average_field_no_questions now_def)
  show ?thesis
    using q info summary
    by (simp add: demand_round_def demand_body_def now_def except_exception_def)
qed

text \<open>
  Claim C2, as the code has it.  In \<^verbatim>\<open>get_language_stats\<close> and in
  \<^verbatim>\<open>get_tech_popularity_metrics\<close> a key whose search request returns a body without
  items (an empty or missing \<^verbatim>\<open>items\<close>, as after a failed request) is recorded as
  \<^verbatim>\<open>None\<close>.  In \<^verbatim>\<open>get_tech_demand_metrics\<close> a key whose tag information has an empty
  \<^verbatim>\<open>items\<close> (as in the default envelope after a failed request) is recorded as \<^verbatim>\<open>None\<close>
  too, because \<^verbatim>\<open>[][0]\<close> raises in line 263 of stackoverflow.py; but a key whose questions
  request returns no items, and whose tag information has an item, is recorded with
  \<^verbatim>\<open>recent_questions = 0\<close> and the three averages \<^verbatim>\<open>0 / 1\<close>: lines 268-270 divide by
  \<^verbatim>\<open>max(len(recent_questions), 1)\<close>.  In each case the key is one of a batch, and the
  entry is the one the batch returns for it.
\<close>

theorem no_items_is_recorded_as_null:
  "(get_language_stats w before s = (found, s1) \<and>
    gh_make_request w (recursion_limit w - 1) ''/search/repositories''
      [(''q'', PStr (''language:'' @ key @ '' stars:>=10'')), (''sort'', PStr ''stars''),
       (''order'', PStr ''desc''), (''per_page'', PInt 100)] s1 = (Inr body, s2) \<and>
    no_items body \<and> key \<notin> set later \<longrightarrow>
      map_of (fst (get_language_stats w (before @ key # later) s)) key = Some None) \<and>
   (get_tech_popularity_metrics w before s = (found, s1) \<and>
    gh_make_request w (recursion_limit w) ''/search/repositories''
      [(''q'', PStr key), (''sort'', PStr ''stars''), (''per_page'', PInt 100)] s1 =
      (Inr body, s2) \<and>
    no_items body \<and> key \<notin> set later \<longrightarrow>
      map_of (fst (get_tech_popularity_metrics w (before @ key # later) s)) key = Some None) \<and>
   (get_tech_demand_metrics w before s = (found, s1) \<and>
    get_tag_questions w key (Some (clock w (ticks s1) - days 7)) None 100 (snd (now w s1)) =
      (Inr questions, s2) \<and>
    so_make_request w (recursion_limit w) (''/tags/'' @ key @ ''/info'') [] s2 =
      (Inr response, s3) \<and>
    py_get response ''items'' (JList [JDict []]) = Inr (JList []) \<and> key \<notin> set later \<longrightarrow>
      map_of (fst (get_tech_demand_metrics w (before @ key # later) s)) key = Some None) \<and>
   (get_tech_demand_metrics w before s = (found, s1) \<and>
    get_tag_questions w key (Some (clock w (ticks s1) - days 7)) None 100 (snd (now w s1)) =
      (Inr (JList []), s2) \<and>
    so_make_request w (recursion_limit w) (''/tags/'' @ key @ ''/info'') [] s2 =
      (Inr response, s3) \<and>
    py_get response ''items'' (JList [JDict []]) = Inr (JList (JDict tag_info # others)) \<and>
    key \<notin> set later \<longrightarrow>
      map_of (fst (get_tech_demand_metrics w (before @ key # later) s)) key =
        Some (Some [(''total_questions'',
                       SJson (case map_of tag_info ''count'' of None \<Rightarrow> JInt 0 | Some v \<Rightarrow> v)),
                    (''recent_questions'', SInt 0),
                    (''avg_score'', SFloat (TrueDiv 0 1)),
                    (''avg_answers'', SFloat (TrueDiv 0 1)),
                    (''avg_views'', SFloat (TrueDiv 0 1)),
                    (''last_activity'',
                       SJson (case map_of tag_info ''last_activity_date'' of
                                None \<Rightarrow> JNull | Some v \<Rightarrow> v)),
                    (''timestamp'', STime (clock w (ticks s3)))]))"
proof (intro conjI impI)
  assume a: "get_language_stats w before s = (found, s1) \<and>
    gh_make_request w (recursion_limit w - 1) ''/search/repositories''
      [(''q'', PStr (''language:'' @ key @ '' stars:>=10'')), (''sort'', PStr ''stars''),
       (''order'', PStr ''desc''), (''per_page'', PInt 100)] s1 = (Inr body, s2) \<and>
    no_items body \<and> key \<notin> set later"
  then have later: "key \<notin> set later"
    and round: "fst (language_stats_round w key s1) = None"
    using language_stats_round_no_items [of w key s1 body s2] by simp_all
  from for_each_last [OF later, of "language_stats_round w" before s] a round
  show "map_of (fst (get_language_stats w (before @ key # later) s)) key = Some None"
    by (simp add: get_language_stats_def)
next
  assume a: "get_tech_popularity_metrics w before s = (found, s1) \<and>
    gh_make_request w (recursion_limit w) ''/search/repositories''
      [(''q'', PStr key), (''sort'', PStr ''stars''), (''per_page'', PInt 100)] s1 =
      (Inr body, s2) \<and>
    no_items body \<and> key \<notin> set later"
  then have later: "key \<notin> set later"
    and round: "fst (popularity_round w key s1) = None"
    using popularity_round_no_items [of w key s1 body s2] by simp_all
  from for_each_last [OF later, of "popularity_round w" before s] a round
  show "map_of (fst (get_tech_popularity_metrics w (before @ key # later) s)) key = Some None"
    by (simp add: get_tech_popularity_metrics_def)
next
  assume a: "get_tech_demand_metrics w before s = (found, s1) \<and>
    get_tag_questions w key (Some (clock w (ticks s1) - days 7)) None 100 (snd (now w s1)) =
      (Inr questions, s2) \<and>
    so_make_request w (recursion_limit w) (''/tags/'' @ key @ ''/info'') [] s2 =
      (Inr response, s3) \<and>
    py_get response ''items'' (JList [JDict []]) = Inr (JList []) \<and> key \<notin> set later"
  then have later: "key \<notin> set later"
    and round: "fst (demand_round w key s1) = None"
    using demand_round_no_tag_info [of w key s1 questions s2 response s3] by simp_all
  from for_each_last [OF later, of "demand_round w" before s] a round
  show "map_of (fst (get_tech_demand_metrics w (before @ key # later) s)) key = Some None"
    by (simp add: get_tech_demand_metrics_def)
next
  assume a: "get_tech_demand_metrics w before s = (found, s1) \<and>
    get_tag_questions w key (Some (clock w (ticks s1) - days 7)) None 100 (snd (now w s1)) =
      (Inr (JList []), s2) \<and>
    so_make_request w (recursion_limit w) (''/tags/'' @ key @ ''/info'') [] s2 =
      (Inr response, s3) \<and>
    py_get response ''items'' (JList [JDict []]) = Inr (JList (JDict tag_info # others)) \<and>
    key \<notin> set later"
  then have later: "key \<notin> set later" by simp
  from a demand_round_no_questions [of w key s1 s2 response s3 tag_info others]
  have round: "fst (demand_round w key s1) =
     Some [(''total_questions'',
              SJson (case map_of tag_info ''count'' of None \<Rightarrow> JInt 0 | Some v \<Rightarrow> v)),
           (''recent_questions'', SInt 0),
           (''avg_score'', SFloat (TrueDiv 0 1)),
           (''avg_answers'', SFloat (TrueDiv 0 1)),
           (''avg_views'', SFloat (TrueDiv 0 1)),
           (''last_activity'',
              SJson (case map_of tag_info ''last_activity_date'' of
                       None \<Rightarrow> JNull | Some v \<Rightarrow> v)),
           (''timestamp'', STime (clock w (ticks s3)))]"
    by simp
  from for_each_last [OF later, of "demand_round w" before s] a round
  show "map_of (fst (get_tech_demand_metrics w (before @ key # later) s)) key =
        Some (Some [(''total_questions'',
                       SJson (case map_of tag_info ''count'' of None \<Rightarrow> JInt 0 | Some v \<Rightarrow> v)),
                    (''recent_questions'', SInt 0),
                    (''avg_score'', SFloat (TrueDiv 0 1)),
                    (''avg_answers'', SFloat (TrueDiv 0 1)),
                    (''avg_views'', SFloat (TrueDiv 0 1)),
                    (''last_activity'',
                       SJson (case map_of tag_info ''last_activity_date'' of
                                None \<Rightarrow> JNull | Some v \<Rightarrow> v)),
                    (''timestamp'', STime (clock w (ticks s3)))])"
    by (simp add: get_tech_demand_metrics_def)
qed

theorem no_items_is_recorded_as_null_witness:
  "fst (get_language_stats
     (constant_world (Responds (plain_response 200 (JDict [(''items'', JList [])]))))
     [''rust'', ''go''] (gh_init None)) = [(''rust'', None), (''go'', None)] \<and>
   fst (get_tech_popularity_metrics
     (constant_world (Raises RequestException)) [''rust'', ''go''] (gh_init None)) =
     [(''rust'', None), (''go'', None)] \<and>
   fst (get_tech_demand_metrics
     (constant_world (Raises RequestException)) [''rust'', ''go''] (so_init None)) =
     [(''rust'', None), (''go'', None)] \<and>
   map_of (fst (get_tech_demand_metrics (routed quiet_tag (fixed_clock 5) no_dates)
     [''rust'', ''go''] (so_init None))) ''rust'' =
     Some (Some [(''total_questions'', SJson (JInt 5)), (''recent_questions'', SInt 0),
                 (''avg_score'', SFloat (TrueDiv 0 1)), (''avg_answers'', SFloat (TrueDiv 0 1)),
                 (''avg_views'', SFloat (TrueDiv 0 1)), (''last_activity'', SJson JNull),
                 (''timestamp'', STime 5)])"
proof -
  let ?w1 = "constant_world (Responds (plain_response 200 (JDict [(''items'', JList [])])))"
  let ?w2 = "constant_world (Raises RequestException)"
  let ?w3 = "routed quiet_tag (fixed_clock 5) no_dates"
  let ?ps1 = "[(''q'', PStr (''language:'' @ ''rust'' @ '' stars:>=10'')), (''sort'', PStr ''stars''),
       (''order'', PStr ''desc''), (''per_page'', PInt 100)]"
  let ?ps2 = "[(''q'', PStr ''rust''), (''sort'', PStr ''stars''), (''per_page'', PInt 100)]"
  let ?q2 = "get_tag_questions ?w2 ''rust'' (Some (clock ?w2 (ticks (so_init None)) - days 7))
      None 100 (snd (now ?w2 (so_init None)))"
  let ?q3 = "get_tag_questions ?w3 ''rust'' (Some (clock ?w3 (ticks (so_init None)) - days 7))
      None 100 (snd (now ?w3 (so_init None)))"
  note defs = get_language_stats_def language_stats_round_def language_stats_body_def
      search_repositories_def
      get_tech_popularity_metrics_def popularity_round_def popularity_body_def
      get_tech_demand_metrics_def demand_round_def demand_body_def demand_summary_def
      get_tag_questions_def average_field_def routed_def quiet_tag_def fixed_clock_def
      gh_make_request_unfold so_make_request_unfold gh_attempt_def so_attempt_def
      constant_world_def plain_response_def gh_init_def so_init_def so_params_def
      gh_update_rate_limit_def so_update_rate_limit_def so_decode_def gh_pause_def
      raise_for_status_def gh_except_def so_except_def default_envelope_def sent_def emit_def
      now_def no_items_def
      except_exception_def and_then_def py_truediv_def str_int_10
      Let_def days_def seconds_def
  have 1: "fst (get_language_stats ?w1 [''rust'', ''go''] (gh_init None)) =
      [(''rust'', None), (''go'', None)]"
    using no_items_is_recorded_as_null
      [where w = ?w1 and before = "[]" and s = "gh_init None" and found = "[]"
         and ?s1.0 = "gh_init None" and key = "''rust''" and later = "[''go'']"
         and body = "JDict [(''items'', JList [])]"
         and ?s2.0 = "snd (gh_make_request ?w1 (recursion_limit ?w1 - 1)
                        ''/search/repositories'' ?ps1 (gh_init None))",
       THEN conjunct1, THEN mp]
    by (simp add: defs)
  have 2: "fst (get_tech_popularity_metrics ?w2 [''rust'', ''go''] (gh_init None)) =
      [(''rust'', None), (''go'', None)]"
    using no_items_is_recorded_as_null
      [where w = ?w2 and before = "[]" and s = "gh_init None" and found = "[]"
         and ?s1.0 = "gh_init None" and key = "''rust''" and later = "[''go'']"
         and body = "JDict []"
         and ?s2.0 = "snd (gh_make_request ?w2 (recursion_limit ?w2)
                        ''/search/repositories'' ?ps2 (gh_init None))",
       THEN conjunct2, THEN conjunct1, THEN mp]
    by (simp add: defs)
  have 3: "fst (get_tech_demand_metrics ?w2 [''rust'', ''go''] (so_init None)) =
      [(''rust'', None), (''go'', None)]"
    using no_items_is_recorded_as_null
      [where w = ?w2 and before = "[]" and s = "so_init None" and found = "[]"
         and ?s1.0 = "so_init None" and key = "''rust''" and later = "[''go'']"
         and questions = "JList []" and ?s2.0 = "snd ?q2"
         and response = "JDict [(''items'', JList []), (''has_more'', JBool False)]"
         and ?s3.0 = "snd (so_make_request ?w2 (recursion_limit ?w2)
                        (''/tags/'' @ ''rust'' @ ''/info'') [] (snd ?q2))",
       THEN conjunct2, THEN conjunct2, THEN conjunct1, THEN mp]
    by (simp add: defs)
  have 4: "map_of (fst (get_tech_demand_metrics ?w3 [''rust'', ''go''] (so_init None))) ''rust'' =
     Some (Some [(''total_questions'', SJson (JInt 5)), (''recent_questions'', SInt 0),
                 (''avg_score'', SFloat (TrueDiv 0 1)), (''avg_answers'', SFloat (TrueDiv 0 1)),
                 (''avg_views'', SFloat (TrueDiv 0 1)), (''last_activity'', SJson JNull),
                 (''timestamp'', STime 5)])"
    using no_items_is_recorded_as_null
      [where w = ?w3 and before = "[]" and s = "so_init None" and found = "[]"
         and ?s1.0 = "so_init None" and key = "''rust''" and later = "[''go'']"
         and ?s2.0 = "snd ?q3"
         and response = "JDict [(''items'', JList [JDict [(''count'', JInt 5)]]),
                                (''has_more'', JBool False)]"
         and ?s3.0 = "snd (so_make_request ?w3 (recursion_limit ?w3)
                        (''/tags/'' @ ''rust'' @ ''/info'') [] (snd ?q3))"
         and tag_info = "[(''count'', JInt 5)]" and others = "[]",
       THEN conjunct2, THEN conjunct2, THEN conjunct2, THEN mp]
    by (simp add: defs)
  from 1 2 3 4 show ?thesis by simp
qed

text \<open>
  Claim C2 as stated fails for \<^verbatim>\<open>get_tech_demand_metrics\<close>: the questions request
  returns an empty envelope and the statistics derived from it are zero, not null.
\<close>

theorem empty_questions_counterexample:
  "quiet_tag ''/questions'' =
     Responds (plain_response 200 (JDict [(''items'', JList []), (''has_more'', JBool False)])) \<and>
   fst (get_tech_demand_metrics (routed quiet_tag (fixed_clock 0) no_dates)
     [''rust''] (so_init None)) =
     [(''rust'',
       Some [(''total_questions'', SJson (JInt 5)), (''recent_questions'', SInt 0),
             (''avg_score'', SFloat (TrueDiv 0 1)), (''avg_answers'', SFloat (TrueDiv 0 1)),
             (''avg_views'', SFloat (TrueDiv 0 1)), (''last_activity'', SJson JNull),
             (''timestamp'', STime 0)])]"
  by (simp add: get_tech_demand_metrics_def demand_round_def demand_body_def demand_summary_def
      get_tag_questions_def average_field_def routed_def quiet_tag_def fixed_clock_def
      so_make_request_unfold so_attempt_def plain_response_def so_init_def so_params_def
      so_update_rate_limit_def so_decode_def raise_for_status_def so_except_def sent_def
      emit_def now_def except_exception_def and_then_def py_truediv_def
      Let_def days_def seconds_def)

section \<open>Properties of the search-interest collector\<close>

subsection \<open>Batches of five keywords\<close>

lemma batches_of_twelve:
  assumes "length tech_list = 12"
  shows "batches tech_list = [take 5 tech_list, take 5 (drop 5 tech_list), drop 10 tech_list]"
proof -
  have "filter (\<lambda>i. i mod 5 = 0) [0..<12] = [0, 5, 10::nat]" by code_simp
  with assms show ?thesis by (simp add: batches_def)
qed

lemma first_occurrences_append:
  "first_occurrences (xs @ ys) =
     first_occurrences xs @ filter (\<lambda>y. y \<notin> set xs) (first_occurrences ys)"
proof (induction xs)
  case Nil
  show ?case by simp
next
  case (Cons x xs)
  have "removeAll x (filter (\<lambda>y. y \<notin> set xs) (first_occurrences ys)) =
        filter (\<lambda>y. y \<noteq> x \<and> y \<notin> set xs) (first_occurrences ys)"
    by (simp add: removeAll_filter_not_eq conj_commute eq_commute)
  with Cons show ?case by simp
qed

lemma single_column:
  "distinct (map fst cols) \<Longrightarrow> k \<in> set (map fst cols) \<Longrightarrow>
   \<exists>c. filter (\<lambda>c. fst c = k) cols = [c] \<and> c \<in> set cols \<and> map_of cols k = Some (snd c)"
proof (induction cols)
  case Nil
  then show ?case by simp
next
  case (Cons c cols)
  show ?case
  proof (cases "fst c = k")
    case True
    with Cons.prems have "fst c \<notin> fst ` set cols" by simp
    with True have "\<forall>x\<in>set cols. fst x \<noteq> k" by (metis imageI)
    then have "filter (\<lambda>c. fst c = k) cols = []"
      by (simp add: filter_empty_conv)
    with True show ?thesis by (cases c) simp
  next
    case False
    with Cons show ?thesis by (cases c) auto
  qed
qed

lemma series_statistics_regular:
  assumes "distinct (labels df)"
    and "list_all (\<lambda>c. length (snd c) = index_length df) (columns df)"
    and "index_length df \<noteq> 0" and "tech \<in> set (labels df)"
  shows "\<exists>xs. series_statistics df tech = Inr (SSeries xs) \<and>
              map_of (columns df) tech = Some xs"
proof -
  from single_column [of "columns df" tech] assms(1,4) obtain c where
    c: "filter (\<lambda>c. fst c = tech) (columns df) = [c]" "c \<in> set (columns df)"
      "map_of (columns df) tech = Some (snd c)"
    by (auto simp: labels_def)
  with assms(2,3) have "snd c \<noteq> []" by (auto simp: list_all_iff)
  with c show ?thesis by (simp add: series_statistics_def)
qed

lemma map_of_no_label: "tech \<notin> set (labels df) \<Longrightarrow> map_of (columns df) tech = None"
  by (simp add: labels_def map_of_eq_None_iff)

lemma record_batch_keys:
  assumes "distinct (labels df)"
    and "list_all (\<lambda>c. length (snd c) = index_length df) (columns df)"
    and "index_length df \<noteq> 0"
  shows "\<exists>technologies'. record_batch df batch technologies = (None, technologies') \<and>
     map fst technologies' =
       map fst technologies @
       filter (\<lambda>k. k \<notin> set (map fst technologies))
         (first_occurrences (filter (\<lambda>k. k \<in> set (labels df)) batch)) \<and>
     map_of technologies' =
       map_of technologies ++
       (\<lambda>k. if k \<in> set batch then map_option SSeries (map_of (columns df) k) else None)"
proof (induction batch arbitrary: technologies)
  case Nil
  show ?case by (simp add: map_add_def)
next
  case (Cons tech batch)
  show ?case
  proof (cases "tech \<in> set (labels df)")
    case False
    from Cons [of technologies] obtain technologies' where
      r: "record_batch df batch technologies = (None, technologies')" and
      k: "map fst technologies' =
            map fst technologies @
            filter (\<lambda>k. k \<notin> set (map fst technologies))
              (first_occurrences (filter (\<lambda>k. k \<in> set (labels df)) batch))" and
      m: "map_of technologies' =
            map_of technologies ++
            (\<lambda>k. if k \<in> set batch then map_option SSeries (map_of (columns df) k) else None)"
      by blast
    have "map_of technologies' =
        map_of technologies ++
        (\<lambda>k. if k \<in> set (tech # batch) then map_option SSeries (map_of (columns df) k)
              else None)"
      using m map_of_no_label [OF False]
      by (auto simp: fun_eq_iff map_add_def split: option.splits)
    with r k False show ?thesis by simp
  next
    case True
    from series_statistics_regular [OF assms True] obtain xs where
      v: "series_statistics df tech = Inr (SSeries xs)" and
      col: "map_of (columns df) tech = Some xs"
      by blast
    from Cons [of "dict_set tech (SSeries xs) technologies"] obtain technologies' where
      r: "record_batch df batch (dict_set tech (SSeries xs) technologies) =
            (None, technologies')" and
      k: "map fst technologies' =
            map fst (dict_set tech (SSeries xs) technologies) @
            filter (\<lambda>k. k \<noteq> tech \<and> k \<notin> set (map fst technologies))
              (first_occurrences (filter (\<lambda>k. k \<in> set (labels df)) batch))" and
      m: "map_of technologies' =
            map_of (dict_set tech (SSeries xs) technologies) ++
            (\<lambda>k. if k \<in> set batch then map_option SSeries (map_of (columns df) k) else None)"
      by (auto simp only: key_set_dict_set insert_iff de_Morgan_disj)
    let ?rest = "first_occurrences (filter (\<lambda>k. k \<in> set (labels df)) batch)"
    have keys: "map fst technologies' =
        map fst technologies @
        filter (\<lambda>k. k \<notin> set (map fst technologies)) (tech # removeAll tech ?rest)"
    proof (cases "tech \<in> set (map fst technologies)")
      case True
      then have 1: "map fst (dict_set tech (SSeries xs) technologies) = map fst technologies"
        by (simp only: keys_dict_set if_True)
      have 2: "filter (\<lambda>k. k \<noteq> tech \<and> k \<notin> set (map fst technologies)) ?rest =
               filter (\<lambda>k. k \<notin> set (map fst technologies)) ?rest"
        using True by (intro filter_cong) auto
      from k 1 2 True show ?thesis by (simp add: filter_removeAll_absorb)
    next
      case False
      then have 1: "map fst (dict_set tech (SSeries xs) technologies) =
                    map fst technologies @ [tech]"
        by (simp only: keys_dict_set if_False)
      from k 1 False show ?thesis by (simp add: filter_removeAll_conj conj_commute)
    qed
    have "map_of technologies' =
        map_of technologies ++
        (\<lambda>k. if k \<in> set (tech # batch) then map_option SSeries (map_of (columns df) k)
              else None)"
      using m col
      by (auto simp: fun_eq_iff map_add_def map_of_dict_set split: option.splits)
    with r v True keys show ?thesis by simp
  qed
qed

lemma asked_append: "asked (xs @ ys) = asked xs @ asked ys"
  by (induction xs rule: asked.induct) simp_all

lemma regular_drop_is_partial:
  assumes "distinct (labels df)"
    and "list_all (\<lambda>c. length (snd c) = index_length df) (columns df)"
  shows "distinct (labels (drop_is_partial df))"
    and "list_all (\<lambda>c. length (snd c) = index_length (drop_is_partial df))
           (columns (drop_is_partial df))"
  using assms
  by (auto simp: labels_def drop_is_partial_def list_all_iff distinct_map_filter)

text \<open>One round of the loop puts one query, whatever the library answers.\<close>

lemma compare_batch_asks:
  assumes "length batch \<le> 5"
  shows "queries (snd (compare_batch lib timeframe geo batch (technologies, s))) =
           Suc (queries s) \<and>
         asked (history (snd (compare_batch lib timeframe geo batch (technologies, s)))) =
           asked (history s) @ [OverTime batch timeframe geo]"
  using assms
  by (auto simp: compare_batch_def get_interest_over_time_def ask_def add_event_def
      asked_append split: sum.splits prod.splits option.splits)

lemma compare_batch_regular:
  assumes len: "length batch \<le> 5"
    and reg: "regular (answer lib (queries s) (OverTime batch timeframe geo))"
  shows "map fst (fst (compare_batch lib timeframe geo batch (technologies, s))) =
       map fst technologies @
       filter (\<lambda>k. k \<notin> set (map fst technologies))
         (first_occurrences
            (filter (\<lambda>k. k \<in> set (visible (answer lib (queries s) (OverTime batch timeframe geo))))
               batch)) \<and>
     map_of (fst (compare_batch lib timeframe geo batch (technologies, s))) =
       map_of technologies ++
       chunk_results batch (answer lib (queries s) (OverTime batch timeframe geo))"
proof (cases "answer lib (queries s) (OverTime batch timeframe geo)")
  case (Inl e)
  with len show ?thesis
    by (simp add: compare_batch_def get_interest_over_time_def ask_def add_event_def
        empty_frame_def is_empty_def visible_def chunk_results_def visible_column_def
        fun_eq_iff map_add_def)
next
  case (Inr df)
  show ?thesis
  proof (cases "is_empty df")
    case True
    with Inr len show ?thesis
      by (simp add: compare_batch_def get_interest_over_time_def ask_def add_event_def
          visible_def chunk_results_def visible_column_def fun_eq_iff map_add_def)
  next
    case False
    let ?d = "drop_is_partial df"
    from reg Inr have r: "distinct (labels df)"
      "list_all (\<lambda>c. length (snd c) = index_length df) (columns df)"
      by (simp_all add: regular_def)
    show ?thesis
    proof (cases "is_empty ?d")
      case True
      with False have none: "columns ?d = []"
        by (simp add: is_empty_def drop_is_partial_def)
      then have "labels ?d = []" by (simp add: labels_def)
      with Inr len False True none show ?thesis
        by (simp add: compare_batch_def get_interest_over_time_def ask_def add_event_def
            visible_def chunk_results_def visible_column_def fun_eq_iff map_add_def)
    next
      case nonempty: False
      then have "index_length ?d \<noteq> 0" by (simp add: is_empty_def)
      from record_batch_keys [OF regular_drop_is_partial [OF r] this, of batch technologies]
      obtain technologies' where
        "record_batch ?d batch technologies = (None, technologies')"
        "map fst technologies' =
           map fst technologies @
           filter (\<lambda>k. k \<notin> set (map fst technologies))
             (first_occurrences (filter (\<lambda>k. k \<in> set (labels ?d)) batch))"
        "map_of technologies' =
           map_of technologies ++
           (\<lambda>k. if k \<in> set batch then map_option SSeries (map_of (columns ?d) k) else None)"
        by blast
      with Inr len False nonempty show ?thesis
        by (simp add: compare_batch_def get_interest_over_time_def ask_def add_event_def
            visible_def chunk_results_def visible_column_def fun_eq_iff map_add_def)
    qed
  qed
qed

text \<open>
  Claim C3, as the code has it.  Twelve keywords are split, in order, into three batches
  of 5, 5 and 2 keywords; \<^verbatim>\<open>compare_technologies\<close> puts one interest-over-time query per
  batch, in that order, whatever the library answers.  When the frames the library
  returns are regular, \<^verbatim>\<open>technologies\<close> merges the results of the three batches: its keys
  are the keywords that are a column, other than \<^verbatim>\<open>isPartial\<close>, of the non-empty frame
  returned for a batch they belong to, each once, in the order of the input, and the
  value of a key is the statistics of its column in the last such batch; a keyword that
  is no such column is left out, and nothing is recorded for it.
\<close>

theorem twelve_keywords_in_three_batches:
  assumes len: "length tech_list = 12"
  shows "batches tech_list = [take 5 tech_list, take 5 (drop 5 tech_list), drop 10 tech_list] \<and>
     map length (batches tech_list) = [5, 5, 2] \<and>
     concat (batches tech_list) = tech_list \<and>
     asked (history (snd (compare_technologies lib tech_list timeframe geo s))) =
       asked (history s) @
       [OverTime (take 5 tech_list) timeframe geo,
        OverTime (take 5 (drop 5 tech_list)) timeframe geo,
        OverTime (drop 10 tech_list) timeframe geo] \<and>
     (regular (answer lib (queries s) (OverTime (take 5 tech_list) timeframe geo)) \<and>
      regular (answer lib (Suc (queries s))
                 (OverTime (take 5 (drop 5 tech_list)) timeframe geo)) \<and>
      regular (answer lib (Suc (Suc (queries s)))
                 (OverTime (drop 10 tech_list) timeframe geo)) \<longrightarrow>
        map fst (cmp_technologies (fst (compare_technologies lib tech_list timeframe geo s))) =
          first_occurrences
            (filter (\<lambda>k. k \<in> set (visible (answer lib (queries s)
                        (OverTime (take 5 tech_list) timeframe geo))))
               (take 5 tech_list) @
             filter (\<lambda>k. k \<in> set (visible (answer lib (Suc (queries s))
                        (OverTime (take 5 (drop 5 tech_list)) timeframe geo))))
               (take 5 (drop 5 tech_list)) @
             filter (\<lambda>k. k \<in> set (visible (answer lib (Suc (Suc (queries s)))
                        (OverTime (drop 10 tech_list) timeframe geo))))
               (drop 10 tech_list)) \<and>
        map_of (cmp_technologies (fst (compare_technologies lib tech_list timeframe geo s))) =
          chunk_results (take 5 tech_list)
            (answer lib (queries s) (OverTime (take 5 tech_list) timeframe geo)) ++
          chunk_results (take 5 (drop 5 tech_list))
            (answer lib (Suc (queries s))
               (OverTime (take 5 (drop 5 tech_list)) timeframe geo)) ++
          chunk_results (drop 10 tech_list)
            (answer lib (Suc (Suc (queries s))) (OverTime (drop 10 tech_list) timeframe geo)))"
proof -
  let ?c0 = "take 5 tech_list" and ?c1 = "take 5 (drop 5 tech_list)" and ?c2 = "drop 10 tech_list"
  let ?a0 = "answer lib (queries s) (OverTime ?c0 timeframe geo)"
  let ?a1 = "answer lib (Suc (queries s)) (OverTime ?c1 timeframe geo)"
  let ?a2 = "answer lib (Suc (Suc (queries s))) (OverTime ?c2 timeframe geo)"
  let ?f0 = "filter (\<lambda>k. k \<in> set (visible ?a0)) ?c0"
  let ?f1 = "filter (\<lambda>k. k \<in> set (visible ?a1)) ?c1"
  let ?f2 = "filter (\<lambda>k. k \<in> set (visible ?a2)) ?c2"
  have b: "batches tech_list = [?c0, ?c1, ?c2]"
    using len by (rule batches_of_twelve)
  have lens: "map length [?c0, ?c1, ?c2] = [5, 5, 2]" using len by simp
  have cat: "concat [?c0, ?c1, ?c2] = tech_list"
  proof -
    have "?c1 @ ?c2 = drop 5 tech_list"
      using append_take_drop_id [of 5 "drop 5 tech_list"] by simp
    then show ?thesis using append_take_drop_id [of 5 tech_list] by simp
  qed
  obtain stamp s0 where clk: "read_clock lib s = (stamp, s0)" by (cases "read_clock lib s")
  then have s0: "queries s0 = queries s" "history s0 = history s"
    by (auto simp: read_clock_def)
  obtain t1 s1 where 1: "compare_batch lib timeframe geo ?c0 ([], s0) = (t1, s1)"
    by (cases "compare_batch lib timeframe geo ?c0 ([], s0)")
  obtain t2 s2 where 2: "compare_batch lib timeframe geo ?c1 (t1, s1) = (t2, s2)"
    by (cases "compare_batch lib timeframe geo ?c1 (t1, s1)")
  obtain t3 s3 where 3: "compare_batch lib timeframe geo ?c2 (t2, s2) = (t3, s3)"
    by (cases "compare_batch lib timeframe geo ?c2 (t2, s2)")
  have run: "compare_technologies lib tech_list timeframe geo s =
      (\<lparr>cmp_timeframe = timeframe, cmp_geo = geo, cmp_timestamp = stamp,
        cmp_technologies = t3\<rparr>, s3)"
    by (simp add: compare_technologies_def b clk 1 2 3)
  from compare_batch_asks [of ?c0 lib timeframe geo "[]" s0] 1 s0
  have q1: "queries s1 = Suc (queries s)"
    and h1: "asked (history s1) = asked (history s) @ [OverTime ?c0 timeframe geo]"
    by simp_all
  from compare_batch_asks [of ?c1 lib timeframe geo t1 s1] 2 q1
  have q2: "queries s2 = Suc (Suc (queries s))"
    and h2: "asked (history s2) = asked (history s1) @ [OverTime ?c1 timeframe geo]"
    by simp_all
  from compare_batch_asks [of ?c2 lib timeframe geo t2 s2] 3 len
  have h3: "asked (history s3) = asked (history s2) @ [OverTime ?c2 timeframe geo]"
    by simp
  have merged: "map fst t3 = first_occurrences (?f0 @ ?f1 @ ?f2) \<and>
      map_of t3 = chunk_results ?c0 ?a0 ++ chunk_results ?c1 ?a1 ++ chunk_results ?c2 ?a2"
    if r: "regular ?a0 \<and> regular ?a1 \<and> regular ?a2"
  proof -
    from compare_batch_regular [of ?c0 lib s0 timeframe geo "[]"] r 1 s0
    have k1: "map fst t1 = first_occurrences ?f0" and m1: "map_of t1 = chunk_results ?c0 ?a0"
      by simp_all
    from compare_batch_regular [of ?c1 lib s1 timeframe geo t1] r 2 q1
    have k2: "map fst t2 =
        map fst t1 @ filter (\<lambda>k. k \<notin> set (map fst t1)) (first_occurrences ?f1)"
      and m2: "map_of t2 = map_of t1 ++ chunk_results ?c1 ?a1"
      by simp_all
    from compare_batch_regular [of ?c2 lib s2 timeframe geo t2] r 3 q2 len
    have k3: "map fst t3 =
        map fst t2 @ filter (\<lambda>k. k \<notin> set (map fst t2)) (first_occurrences ?f2)"
      and m3: "map_of t3 = map_of t2 ++ chunk_results ?c2 ?a2"
      by simp_all
    have k12: "map fst t2 = first_occurrences (?f0 @ ?f1)"
      using k1 k2 by (simp add: first_occurrences_append)
    have "map fst t3 = first_occurrences ((?f0 @ ?f1) @ ?f2)"
      using k12 k3
      by (simp only: first_occurrences_append [of "?f0 @ ?f1" ?f2] set_first_occurrences)
    then have "map fst t3 = first_occurrences (?f0 @ ?f1 @ ?f2)" by simp
    with m1 m2 m3 show ?thesis by simp
  qed
  from b lens cat run h1 h2 h3 merged show ?thesis by simp
qed

theorem twelve_keywords_in_three_batches_witness:
  "asked (history (snd (compare_technologies two_week_library twelve_keywords
     ''today 12-m'' [] trends_init))) =
     [OverTime [''a'', ''b'', ''c'', ''d'', ''e''] ''today 12-m'' [],
      OverTime [''f'', ''g'', ''h'', ''i'', ''j''] ''today 12-m'' [],
      OverTime [''k'', ''l''] ''today 12-m'' []] \<and>
   map fst (cmp_technologies (fst (compare_technologies two_week_library twelve_keywords
     ''today 12-m'' [] trends_init))) =
     [''a'', ''b'', ''d'', ''e'', ''f'', ''g'', ''h'', ''i'', ''j'', ''k'', ''l''] \<and>
   map_of (cmp_technologies (fst (compare_technologies two_week_library twelve_keywords
     ''today 12-m'' [] trends_init))) ''l'' = Some (SSeries [40, 60]) \<and>
   map_of (cmp_technologies (fst (compare_technologies two_week_library twelve_keywords
     ''today 12-m'' [] trends_init))) ''c'' = None \<and>
   asked (history (snd (compare_technologies (constant_library (Inl OtherException))
     twelve_keywords ''today 12-m'' [] trends_init))) =
     [OverTime [''a'', ''b'', ''c'', ''d'', ''e''] ''today 12-m'' [],
      OverTime [''f'', ''g'', ''h'', ''i'', ''j''] ''today 12-m'' [],
      OverTime [''k'', ''l''] ''today 12-m'' []]"
proof -
  have len: "length twelve_keywords = 12"
    by (simp add: twelve_keywords_def)
  have r: "regular (answer two_week_library (queries trends_init)
      (OverTime (take 5 twelve_keywords) ''today 12-m'' [])) \<and>
    regular (answer two_week_library (Suc (queries trends_init))
      (OverTime (take 5 (drop 5 twelve_keywords)) ''today 12-m'' [])) \<and>
    regular (answer two_week_library (Suc (Suc (queries trends_init)))
      (OverTime (drop 10 twelve_keywords) ''today 12-m'' []))"
    by (simp add: regular_def two_week_library_def twelve_keywords_def labels_def)
  from twelve_keywords_in_three_batches [OF len, of two_week_library "''today 12-m''" "[]"
      trends_init] r
  have 1: "asked (history (snd (compare_technologies two_week_library twelve_keywords
     ''today 12-m'' [] trends_init))) =
     [OverTime [''a'', ''b'', ''c'', ''d'', ''e''] ''today 12-m'' [],
      OverTime [''f'', ''g'', ''h'', ''i'', ''j''] ''today 12-m'' [],
      OverTime [''k'', ''l''] ''today 12-m'' []] \<and>
   map fst (cmp_technologies (fst (compare_technologies two_week_library twelve_keywords
     ''today 12-m'' [] trends_init))) =
     [''a'', ''b'', ''d'', ''e'', ''f'', ''g'', ''h'', ''i'', ''j'', ''k'', ''l''] \<and>
   map_of (cmp_technologies (fst (compare_technologies two_week_library twelve_keywords
     ''today 12-m'' [] trends_init))) ''l'' = Some (SSeries [40, 60]) \<and>
   map_of (cmp_technologies (fst (compare_technologies two_week_library twelve_keywords
     ''today 12-m'' [] trends_init))) ''c'' = None"
    by (simp add: two_week_library_def twelve_keywords_def trends_init_def visible_def
        is_empty_def labels_def drop_is_partial_def chunk_results_def visible_column_def
        map_add_def)
  from twelve_keywords_in_three_batches [OF len, of "constant_library (Inl OtherException)"
      "''today 12-m''" "[]" trends_init]
  have 2: "asked (history (snd (compare_technologies (constant_library (Inl OtherException))
     twelve_keywords ''today 12-m'' [] trends_init))) =
     [OverTime [''a'', ''b'', ''c'', ''d'', ''e''] ''today 12-m'' [],
      OverTime [''f'', ''g'', ''h'', ''i'', ''j''] ''today 12-m'' [],
      OverTime [''k'', ''l''] ''today 12-m'' []]"
    by (simp add: twelve_keywords_def trends_init_def)
  from 1 2 show ?thesis by simp
qed

text \<open>
  Claim C3 as stated fails in two ways.  The keyword \<^verbatim>\<open>isPartial\<close> is a column of the
  answer to its batch, but lines 57-58 of trends.py drop that column, so the keyword is
  left out.  And a frame with a column for a keyword and no row is empty for line 184
  of trends.py, so the keyword is left out although it is a column of the answer to its
  batch.
\<close>

theorem twelve_keywords_counterexample:
  "answer two_week_library 2 (OverTime (drop 10 marked_keywords) ''today 12-m'' []) =
     Inr \<lparr>index_length = 2,
          columns = [(''k'', [40, 60]), (''isPartial'', [40, 60]), (''isPartial'', [0, 0])]\<rparr> \<and>
   ''isPartial'' \<in> set marked_keywords \<and>
   map fst (cmp_technologies (fst (compare_technologies two_week_library marked_keywords
     ''today 12-m'' [] trends_init))) =
     [''a'', ''b'', ''d'', ''e'', ''f'', ''g'', ''h'', ''i'', ''j'', ''k''] \<and>
   answer rowless_library 0 (OverTime (take 5 twelve_keywords) ''today 12-m'' []) =
     Inr \<lparr>index_length = 0, columns = [(''a'', [])]\<rparr> \<and>
   ''a'' \<in> set twelve_keywords \<and>
   cmp_technologies (fst (compare_technologies rowless_library twelve_keywords
     ''today 12-m'' [] trends_init)) = []"
  by (simp add: rowless_library_def two_week_library_def twelve_keywords_def
      marked_keywords_def labels_def compare_technologies_def batches_of_twelve
      compare_batch_def get_interest_over_time_def ask_def add_event_def read_clock_def
      trends_init_def is_empty_def empty_frame_def drop_is_partial_def series_statistics_def)

subsection \<open>At most five keywords per query\<close>

text \<open>
  Claim C10.  \<^verbatim>\<open>get_interest_over_time\<close> and \<^verbatim>\<open>get_interest_by_region\<close> hand the first
  five keywords to \<^verbatim>\<open>build_payload\<close> and nothing else: the one query they put carries
  \<^verbatim>\<open>keywords[:5]\<close>, and the frame returned, the queries and the error lines logged are
  those of a call with the first five keywords only.  The only error line there can be
  is the one for an exception of the library.
\<close>

theorem only_five_keywords_are_sent:
  "get_interest_over_time lib keywords timeframe geo s =
     get_interest_over_time lib (take 5 keywords) timeframe geo s \<and>
   get_interest_by_region lib keywords resolution timeframe s =
     get_interest_by_region lib (take 5 keywords) resolution timeframe s \<and>
   history (snd (get_interest_over_time lib keywords timeframe geo s)) =
     history s @ Query (OverTime (take 5 keywords) timeframe geo) #
       (case answer lib (queries s) (OverTime (take 5 keywords) timeframe geo) of
          Inl e \<Rightarrow> [Report Error ''Error fetching interest over time'']
        | Inr df \<Rightarrow> []) \<and>
   history (snd (get_interest_by_region lib keywords resolution timeframe s)) =
     history s @ Query (ByRegion (take 5 keywords) timeframe resolution) #
       (case answer lib (queries s) (ByRegion (take 5 keywords) timeframe resolution) of
          Inl e \<Rightarrow> [Report Error ''Error fetching regional interest'']
        | Inr df \<Rightarrow> []) \<and>
   (5 < length keywords \<longrightarrow>
      length (take 5 keywords) = 5 \<and> take 5 keywords \<noteq> keywords)"
  by (auto simp: get_interest_over_time_def get_interest_by_region_def ask_def add_event_def
      split: sum.splits)

theorem only_five_keywords_are_sent_witness:
  "asked (history (snd (get_interest_over_time two_week_library
      [''a'', ''b'', ''c'', ''d'', ''e'', ''f'', ''g''] ''today 12-m'' [] trends_init))) =
     [OverTime [''a'', ''b'', ''c'', ''d'', ''e''] ''today 12-m'' []] \<and>
   get_interest_over_time two_week_library
      [''a'', ''b'', ''c'', ''d'', ''e'', ''f'', ''g''] ''today 12-m'' [] trends_init =
   get_interest_over_time two_week_library
      [''a'', ''b'', ''c'', ''d'', ''e''] ''today 12-m'' [] trends_init \<and>
   history (snd (get_interest_by_region two_week_library
      [''a'', ''b'', ''c'', ''d'', ''e'', ''f'', ''g''] ''COUNTRY'' ''today 12-m'' trends_init)) =
     [Query (ByRegion [''a'', ''b'', ''c'', ''d'', ''e''] ''today 12-m'' ''COUNTRY''),
      Report Error ''Error fetching regional interest'']"
  using only_five_keywords_are_sent
      [of two_week_library "[''a'', ''b'', ''c'', ''d'', ''e'', ''f'', ''g'']" "''today 12-m''"
          "[]" trends_init "''COUNTRY''"]
  by (simp add: two_week_library_def trends_init_def get_interest_over_time_def
      get_interest_by_region_def ask_def add_event_def is_empty_def drop_is_partial_def
      empty_frame_def)

section \<open>Running a batch twice\<close>

subsection \<open>Runs in step\<close>

lemma aligned_sym: "aligned w w' s s' \<Longrightarrow> aligned w' w s' s"
  by (simp add: aligned_def)

lemma aligned_emit: "aligned w w' s s' \<Longrightarrow> aligned w w' (emit x s) (emit y s')"
  by (simp add: aligned_def emit_def)

lemma aligned_sent:
  "aligned w w' s s' \<Longrightarrow> aligned w w' (sent endpoint ps s) (sent endpoint' ps' s')"
proof -
  assume a: "aligned w w' s s'"
  then have "service w (requests s + Suc i) e p = service w' (requests s' + Suc i) e p" for i e p
    unfolding aligned_def by blast
  with a show ?thesis by (simp add: aligned_def sent_def emit_def)
qed

lemma aligned_range: "aligned w w' s s' \<Longrightarrow> in_datetime_range w = in_datetime_range w'"
  by (simp add: aligned_def)

lemma aligned_gh_update:
  assumes "aligned w w' s s'"
  shows "fst (gh_update_rate_limit w r s) = fst (gh_update_rate_limit w' r s')"
    and "aligned w w' (snd (gh_update_rate_limit w r s)) (snd (gh_update_rate_limit w' r s'))"
  using assms aligned_range [OF assms]
  by (simp_all add: aligned_def gh_update_rate_limit_def fromtimestamp_def Let_def
      split: option.splits)

lemma aligned_so_update:
  "aligned w w' s s' \<Longrightarrow> aligned w w' (so_update_rate_limit r s) (so_update_rate_limit r s')"
  by (simp add: aligned_def so_update_rate_limit_def)

lemma aligned_now:
  assumes "aligned w w' s s'"
  shows "fst (now w s) = fst (now w' s')" and "aligned w w' (snd (now w s)) (snd (now w' s'))"
proof -
  from assms have c: "clock w (ticks s + j) = clock w' (ticks s' + j)" for j
    unfolding aligned_def by blast
  from c [of 0] show "fst (now w s) = fst (now w' s')" by (simp add: now_def)
  from c have "clock w (ticks s + Suc j) = clock w' (ticks s' + Suc j)" for j by blast
  with assms show "aligned w w' (snd (now w s)) (snd (now w' s'))"
    by (simp add: aligned_def now_def)
qed

lemma aligned_time_sleep:
  assumes "aligned w w' s s'"
  shows "fst (time_sleep w d s) = fst (time_sleep w' d s')"
    and "aligned w w' (snd (time_sleep w d s)) (snd (time_sleep w' d s'))"
proof -
  from assms have "accepts_sleep w d = accepts_sleep w' d"
    by (simp add: aligned_def accepts_sleep_def)
  with assms show "fst (time_sleep w d s) = fst (time_sleep w' d s')"
    and "aligned w w' (snd (time_sleep w d s)) (snd (time_sleep w' d s'))"
    by (simp_all add: time_sleep_def aligned_emit)
qed

lemma aligned_gh_wait:
  assumes "aligned w w' s s'"
  shows "fst (gh_wait w s) = fst (gh_wait w' s')"
    and "aligned w w' (snd (gh_wait w s)) (snd (gh_wait w' s'))"
proof -
  let ?e = "Log Warning ''Rate limit exceeded, waiting...''"
  have a: "aligned w w' (emit ?e s) (emit ?e s')" using assms by (rule aligned_emit)
  have "fst (gh_wait w s) = fst (gh_wait w' s') \<and>
        aligned w w' (snd (gh_wait w s)) (snd (gh_wait w' s'))"
  proof (cases "rate_limit_reset s")
    case None
    with assms have "rate_limit_reset s' = None" by (simp add: aligned_def)
    with None a show ?thesis by (simp add: gh_wait_def aligned_emit)
  next
    case (Some reset)
    with assms have r: "rate_limit_reset s' = Some reset" by (simp add: aligned_def)
    note n = aligned_now [OF a]
    from aligned_time_sleep [OF n(2)] n(1) Some r show ?thesis
      by (simp add: gh_wait_def Let_def split_beta)
  qed
  then show "fst (gh_wait w s) = fst (gh_wait w' s')"
    and "aligned w w' (snd (gh_wait w s)) (snd (gh_wait w' s'))"
    by simp_all
qed

lemma aligned_so_wait: "aligned w w' s s' \<Longrightarrow> aligned w w' (so_wait s) (so_wait s')"
  by (simp add: so_wait_def aligned_emit)

lemma aligned_gh_pause: "aligned w w' s s' \<Longrightarrow> aligned w w' (gh_pause s) (gh_pause s')"
  by (simp add: aligned_def gh_pause_def emit_def)

lemma aligned_gh_except:
  "aligned w w' s s' \<Longrightarrow> same_outcome (aligned w w') (gh_except (x, s)) (gh_except (x, s'))"
  by (auto simp: same_outcome_def gh_except_def aligned_emit split: sum.splits exn.splits)

lemma aligned_so_except:
  "aligned w w' s s' \<Longrightarrow> same_outcome (aligned w w') (so_except (x, s)) (so_except (x, s'))"
  by (auto simp: same_outcome_def so_except_def aligned_emit split: sum.splits exn.splits)

lemma same_outcome_except:
  assumes "same_outcome (aligned w w') x y"
  shows "same_outcome (aligned w w') (gh_except x) (gh_except y)"
    and "same_outcome (aligned w w') (so_except x) (so_except y)"
proof -
  obtain a s where x: "x = (a, s)" by (cases x)
  obtain b t where y: "y = (b, t)" by (cases y)
  from assms x y have "a = b" "aligned w w' s t" by (simp_all add: same_outcome_def)
  with x y show "same_outcome (aligned w w') (gh_except x) (gh_except y)"
    and "same_outcome (aligned w w') (so_except x) (so_except y)"
    by (simp_all add: aligned_gh_except aligned_so_except)
qed

lemma aligned_service:
  "aligned w w' s s' \<Longrightarrow> service w (requests s) endpoint ps = service w' (requests s') endpoint ps"
  unfolding aligned_def by (metis add.right_neutral)

lemma gh_attempt_lockstep:
  assumes a: "aligned w w' s s'"
  shows "attempts_agree w w' (gh_attempt w endpoint ps s) (gh_attempt w' endpoint ps s')"
proof (cases "service w (requests s) endpoint ps")
  case (Raises e)
  with aligned_service [OF a, of endpoint ps]
  have "service w' (requests s') endpoint ps = Raises e" by simp
  with Raises aligned_sent [OF a, of endpoint ps endpoint ps] show ?thesis
    by (simp add: gh_attempt_raises attempts_agree_def same_outcome_def)
next
  case (Responds r)
  with aligned_service [OF a, of endpoint ps]
  have r': "service w' (requests s') endpoint ps = Responds r" by simp
  obtain x s1 where u: "gh_update_rate_limit w r (sent endpoint ps s) = (x, s1)"
    by (cases "gh_update_rate_limit w r (sent endpoint ps s)")
  obtain x' t1 where u': "gh_update_rate_limit w' r (sent endpoint ps s') = (x', t1)"
    by (cases "gh_update_rate_limit w' r (sent endpoint ps s')")
  from aligned_gh_update [OF aligned_sent [OF a, of endpoint ps endpoint ps], of r] u u'
  have x: "x = x'" and a1: "aligned w w' s1 t1" by simp_all
  show ?thesis
  proof (cases x')
    case (Some e)
    with Responds r' u u' x a1 show ?thesis
      by (simp add: gh_attempt_def attempts_agree_def same_outcome_def)
  next
    case None
    show ?thesis
    proof (cases "status_code r = 403")
      case False
      with Responds r' u u' x a1 None show ?thesis
        by (simp add: gh_attempt_def attempts_agree_def same_outcome_def split: option.splits)
    next
      case True
      obtain y s2 where v: "gh_wait w s1 = (y, s2)" by (cases "gh_wait w s1")
      obtain y' t2 where v': "gh_wait w' t1 = (y', t2)" by (cases "gh_wait w' t1")
      from aligned_gh_wait [OF a1] v v' have "y = y'" "aligned w w' s2 t2" by simp_all
      with Responds r' u u' x None True v v' show ?thesis
        by (simp add: gh_attempt_def attempts_agree_def same_outcome_def split: option.splits)
    qed
  qed
qed

lemma gh_lockstep:
  assumes "aligned w w' s s'"
  shows "same_outcome (aligned w w') (gh_make_request w depth endpoint ps s)
           (gh_make_request w' depth endpoint ps s')"
  using assms
proof (induction depth arbitrary: s s')
  case 0
  from gh_attempt_lockstep [OF "0.prems", of endpoint ps]
  have "same_outcome (aligned w w')
      (case gh_attempt w endpoint ps s of
         Ends res \<Rightarrow> res | Retries s1 \<Rightarrow> (Inl RecursionError, s1))
      (case gh_attempt w' endpoint ps s' of
         Ends res \<Rightarrow> res | Retries s1 \<Rightarrow> (Inl RecursionError, s1))"
    by (auto simp: attempts_agree_def same_outcome_def split: attempt.splits)
  then show ?case by (simp add: gh_make_request.simps same_outcome_except)
next
  case (Suc depth)
  from gh_attempt_lockstep [OF Suc.prems, of endpoint ps] Suc.IH
  have "same_outcome (aligned w w')
      (case gh_attempt w endpoint ps s of
         Ends res \<Rightarrow> res | Retries s1 \<Rightarrow> gh_make_request w depth endpoint ps s1)
      (case gh_attempt w' endpoint ps s' of
         Ends res \<Rightarrow> res | Retries s1 \<Rightarrow> gh_make_request w' depth endpoint ps s1)"
    by (auto simp: attempts_agree_def split: attempt.splits)
  then show ?case by (simp add: gh_make_request.simps same_outcome_except)
qed

lemma aligned_so_params: "aligned w w' s s' \<Longrightarrow> so_params s ps = so_params s' ps"
  by (simp add: aligned_def so_params_def)

lemma so_attempt_lockstep:
  assumes a: "aligned w w' s s'"
  shows "attempts_agree w w' (so_attempt w endpoint ps s) (so_attempt w' endpoint ps s')"
proof (cases "service w (requests s) endpoint ps")
  case (Raises e)
  with aligned_service [OF a, of endpoint ps]
  have "service w' (requests s') endpoint ps = Raises e" by simp
  with Raises aligned_sent [OF a, of endpoint ps endpoint ps] show ?thesis
    by (simp add: so_attempt_raises attempts_agree_def same_outcome_def)
next
  case (Responds r)
  with aligned_service [OF a, of endpoint ps]
  have r': "service w' (requests s') endpoint ps = Responds r" by simp
  have a1: "aligned w w' (so_update_rate_limit r (sent endpoint ps s))
      (so_update_rate_limit r (sent endpoint ps s'))"
    by (intro aligned_so_update aligned_sent a)
  with Responds r' aligned_so_wait [OF a1] show ?thesis
    by (simp add: so_attempt_def attempts_agree_def same_outcome_def Let_def
        split: option.splits)
qed

lemma so_lockstep:
  assumes "aligned w w' s s'"
  shows "same_outcome (aligned w w') (so_make_request w depth endpoint ps s)
           (so_make_request w' depth endpoint ps s')"
  using assms
proof (induction depth arbitrary: s s' ps)
  case 0
  note p = aligned_so_params [OF "0.prems", of ps]
  from so_attempt_lockstep [OF "0.prems", of endpoint "so_params s ps"]
  have "same_outcome (aligned w w')
      (case so_attempt w endpoint (so_params s ps) s of
         Ends res \<Rightarrow> res | Retries s1 \<Rightarrow> (Inl RecursionError, s1))
      (case so_attempt w' endpoint (so_params s ps) s' of
         Ends res \<Rightarrow> res | Retries s1 \<Rightarrow> (Inl RecursionError, s1))"
    by (auto simp: attempts_agree_def same_outcome_def split: attempt.splits)
  then show ?case
    by (simp add: so_make_request.simps Let_def p [symmetric] same_outcome_except)
next
  case (Suc depth)
  note p = aligned_so_params [OF Suc.prems, of ps]
  from so_attempt_lockstep [OF Suc.prems, of endpoint "so_params s ps"] Suc.IH
  have "same_outcome (aligned w w')
      (case so_attempt w endpoint (so_params s ps) s of
         Ends res \<Rightarrow> res
       | Retries s1 \<Rightarrow> so_make_request w depth endpoint (so_params s ps) s1)
      (case so_attempt w' endpoint (so_params s ps) s' of
         Ends res \<Rightarrow> res
       | Retries s1 \<Rightarrow> so_make_request w' depth endpoint (so_params s ps) s1)"
    by (auto simp: attempts_agree_def split: attempt.splits)
  then show ?case
    by (simp add: so_make_request.simps Let_def p [symmetric] same_outcome_except)
qed

text \<open>Composition of runs that end alike.\<close>

lemma same_outcomeI: "fst x = fst y \<Longrightarrow> R (snd x) (snd y) \<Longrightarrow> same_outcome R x y"
  by (simp add: same_outcome_def)

lemma same_outcomeD:
  "same_outcome R x y \<Longrightarrow> fst x = fst y"
  "same_outcome R x y \<Longrightarrow> R (snd x) (snd y)"
  by (simp_all add: same_outcome_def)

lemma same_outcome_then:
  assumes "same_outcome R x y"
    and "\<And>a s t. R s t \<Longrightarrow> same_outcome Q (f a s) (g a t)"
  shows "same_outcome Q (case x of (a, s) \<Rightarrow> f a s) (case y of (a, t) \<Rightarrow> g a t)"
  using assms by (cases x; cases y) (auto simp: same_outcome_def)

lemma for_each_lockstep:
  assumes step: "\<And>k s t. R s t \<Longrightarrow> same_outcome R (step k s) (step' k t)"
    and "R s t"
  shows "same_outcome R (for_each step keys acc s) (for_each step' keys acc t)"
  using assms(2)
proof (induction keys arbitrary: acc s t)
  case Nil
  then show ?case by (simp add: same_outcome_def)
next
  case (Cons k keys)
  obtain v s1 where p: "step k s = (v, s1)" by (cases "step k s")
  obtain v' t1 where p': "step' k t = (v', t1)" by (cases "step' k t")
  from step [OF Cons.prems, of k] p p' have "v = v'" "R s1 t1"
    by (simp_all add: same_outcome_def)
  with Cons.IH [of s1 t1 "dict_set k v acc"] p p' show ?case by simp
qed

lemma aligned_strptime: "aligned w w' s s' \<Longrightarrow> strptime w = strptime w'"
  by (simp add: aligned_def)

lemma aligned_limit: "aligned w w' s s' \<Longrightarrow> recursion_limit w = recursion_limit w'"
  by (simp add: aligned_def)

lemma newer_than_cong:
  "strptime w = strptime w' \<Longrightarrow> newer_than w field cutoff x = newer_than w' field cutoff x"
  by (auto simp: newer_than_def and_then_def split: sum.splits json.splits)

lemma count_newer_cong:
  "strptime w = strptime w' \<Longrightarrow>
   count_newer w field cutoff xs = count_newer w' field cutoff xs"
  by (induction xs) (simp_all add: newer_than_cong [of w w'])

lemma language_summary_lockstep:
  assumes a: "aligned w w' s s'"
  shows "same_outcome (aligned w w') (language_summary w repos s) (language_summary w' repos s')"
proof -
  note n1 = aligned_now [OF a]
  note n2 = aligned_now [OF n1(2)]
  note c = count_newer_cong [OF aligned_strptime [OF a]]
  show ?thesis
    by (simp add: same_outcome_def language_summary_def Let_def split_beta n1 n2 c a
        split: sum.splits)
qed

lemma popularity_summary_lockstep:
  assumes a: "aligned w w' s s'"
  shows "same_outcome (aligned w w') (popularity_summary w repos s)
           (popularity_summary w' repos s')"
proof -
  note n1 = aligned_now [OF a]
  note n2 = aligned_now [OF n1(2)]
  note c = count_newer_cong [OF aligned_strptime [OF a]]
  show ?thesis
    by (simp add: same_outcome_def popularity_summary_def Let_def split_beta n1 n2 c a
        split: sum.splits)
qed

lemma demand_summary_lockstep:
  assumes a: "aligned w w' s s'"
  shows "same_outcome (aligned w w') (demand_summary w questions info s)
           (demand_summary w' questions info s')"
proof -
  note n1 = aligned_now [OF a]
  show ?thesis
    by (simp add: same_outcome_def demand_summary_def Let_def split_beta n1 a split: sum.splits)
qed

lemma except_exception_lockstep:
  assumes "same_outcome (aligned w w') x y"
  shows "same_outcome (aligned w w') (except_exception msg x) (except_exception msg y)"
proof -
  obtain a s where x: "x = (a, s)" by (cases x)
  obtain b t where y: "y = (b, t)" by (cases y)
  from assms x y have "a = b" "aligned w w' s t" by (simp_all add: same_outcome_def)
  with x y show ?thesis
    by (cases b) (simp_all add: same_outcome_def except_exception_def aligned_emit)
qed

lemma search_repositories_lockstep:
  assumes a: "aligned w w' s s'"
  shows "same_outcome (aligned w w') (search_repositories w language min_stars None s)
           (search_repositories w' language min_stars None s')"
  unfolding search_repositories_def Let_def option.case aligned_limit [OF a]
  by (rule same_outcome_then [OF gh_lockstep [OF a]]) (simp add: same_outcome_def)

lemma language_stats_body_lockstep:
  assumes a: "aligned w w' s s'"
  shows "same_outcome (aligned w w') (language_stats_body w language s)
           (language_stats_body w' language s')"
proof -
  obtain found s1 where f: "search_repositories w language 10 None s = (found, s1)"
    by (cases "search_repositories w language 10 None s")
  obtain found' t1 where f': "search_repositories w' language 10 None s' = (found', t1)"
    by (cases "search_repositories w' language 10 None s'")
  from search_repositories_lockstep [OF a, of language 10] f f'
  have same: "found = found'" and a1: "aligned w w' s1 t1"
    by (simp_all add: same_outcome_def)
  show ?thesis
  proof (cases found')
    case (Inl e)
    with f f' same a1 show ?thesis
      by (simp add: language_stats_body_def same_outcome_def)
  next
    case (Inr repos)
    obtain x s2 where x: "language_summary w repos s1 = (x, s2)"
      by (cases "language_summary w repos s1")
    obtain x' t2 where x': "language_summary w' repos t1 = (x', t2)"
      by (cases "language_summary w' repos t1")
    from language_summary_lockstep [OF a1, of repos] x x' have "x = x'" "aligned w w' s2 t2"
      by (simp_all add: same_outcome_def)
    with Inr f f' same a1 x x' show ?thesis
      by (cases x') (simp_all add: language_stats_body_def same_outcome_def aligned_gh_pause)
  qed
qed

lemma language_stats_round_lockstep:
  assumes "aligned w w' s s'"
  shows "same_outcome (aligned w w') (language_stats_round w language s)
           (language_stats_round w' language s')"
  unfolding language_stats_round_def
  by (rule except_exception_lockstep [OF language_stats_body_lockstep [OF assms]])

lemma popularity_body_lockstep:
  assumes a: "aligned w w' s s'"
  shows "same_outcome (aligned w w') (popularity_body w tech s) (popularity_body w' tech s')"
proof -
  let ?ps = "[(''q'', PStr tech), (''sort'', PStr ''stars''), (''per_page'', PInt 100)]"
  obtain response s1 where
    f: "gh_make_request w (recursion_limit w) ''/search/repositories'' ?ps s = (response, s1)"
    by (cases "gh_make_request w (recursion_limit w) ''/search/repositories'' ?ps s")
  obtain response' t1 where
    f': "gh_make_request w' (recursion_limit w') ''/search/repositories'' ?ps s' =
           (response', t1)"
    by (cases "gh_make_request w' (recursion_limit w') ''/search/repositories'' ?ps s'")
  from gh_lockstep [OF a, of "recursion_limit w" "''/search/repositories''" ?ps] f f'
    aligned_limit [OF a]
  have same: "response = response'" and a1: "aligned w w' s1 t1"
    by (simp_all add: same_outcome_def)
  show ?thesis
  proof (cases "and_then response' (\<lambda>body. py_get body ''items'' (JList []))")
    case (Inl e)
    with f f' same a1 show ?thesis
      by (simp add: popularity_body_def same_outcome_def)
  next
    case (Inr repos)
    obtain x s2 where x: "popularity_summary w repos s1 = (x, s2)"
      by (cases "popularity_summary w repos s1")
    obtain x' t2 where x': "popularity_summary w' repos t1 = (x', t2)"
      by (cases "popularity_summary w' repos t1")
    from popularity_summary_lockstep [OF a1, of repos] x x' have "x = x'" "aligned w w' s2 t2"
      by (simp_all add: same_outcome_def)
    with Inr f f' same a1 x x' show ?thesis
      by (cases x') (simp_all add: popularity_body_def same_outcome_def aligned_emit)
  qed
qed

lemma popularity_round_lockstep:
  assumes "aligned w w' s s'"
  shows "same_outcome (aligned w w') (popularity_round w tech s) (popularity_round w' tech s')"
  unfolding popularity_round_def
  by (rule except_exception_lockstep [OF popularity_body_lockstep [OF assms]])

lemma get_tag_questions_lockstep:
  assumes a: "aligned w w' s s'"
  shows "same_outcome (aligned w w') (get_tag_questions w tag fromdate todate page_size s)
           (get_tag_questions w' tag fromdate todate page_size s')"
proof -
  note n1 = aligned_now [OF a]
  note n2 = aligned_now [OF n1(2)]
  note l = aligned_limit [OF a]
  show ?thesis
  proof (cases fromdate)
    case None
    show ?thesis
    proof (cases todate)
      case None
      show ?thesis
        unfolding \<open>fromdate = None\<close> \<open>todate = None\<close>
        by (simp add: get_tag_questions_def Let_def split_beta n1(1) n2(1) l,
            rule same_outcomeI,
            simp_all add: same_outcomeD [OF so_lockstep [OF n2(2)]])
    next
      case (Some t)
      show ?thesis
        unfolding \<open>fromdate = None\<close> \<open>todate = Some t\<close>
        by (simp add: get_tag_questions_def Let_def split_beta n1(1) l,
            rule same_outcomeI,
            simp_all add: same_outcomeD [OF so_lockstep [OF n1(2)]])
    qed
  next
    case (Some f)
    show ?thesis
    proof (cases todate)
      case None
      show ?thesis
        unfolding \<open>fromdate = Some f\<close> \<open>todate = None\<close>
        by (simp add: get_tag_questions_def Let_def split_beta n1(1) l,
            rule same_outcomeI,
            simp_all add: same_outcomeD [OF so_lockstep [OF n1(2)]])
    next
      case (Some t)
      show ?thesis
        unfolding \<open>fromdate = Some f\<close> \<open>todate = Some t\<close>
        by (simp add: get_tag_questions_def Let_def split_beta l,
            rule same_outcomeI,
            simp_all add: same_outcomeD [OF so_lockstep [OF a]])
    qed
  qed
qed

lemma demand_body_lockstep:
  assumes a: "aligned w w' s s'"
  shows "same_outcome (aligned w w') (demand_body w tech s) (demand_body w' tech s')"
proof -
  note n1 = aligned_now [OF a]
  let ?from = "Some (fst (now w' s') - days 7)"
  obtain found s2 where
    q: "get_tag_questions w tech ?from None 100 (snd (now w s)) = (found, s2)"
    by (cases "get_tag_questions w tech ?from None 100 (snd (now w s))")
  obtain found' t2 where
    q': "get_tag_questions w' tech ?from None 100 (snd (now w' s')) = (found', t2)"
    by (cases "get_tag_questions w' tech ?from None 100 (snd (now w' s'))")
  from get_tag_questions_lockstep [OF n1(2), of tech ?from None 100] q q'
  have same: "found = found'" and a2: "aligned w w' s2 t2"
    by (simp_all add: same_outcome_def)
  show ?thesis
  proof (cases found')
    case (Inl e)
    with q q' same a2 n1(1) show ?thesis
      by (simp add: demand_body_def Let_def split_beta same_outcome_def)
  next
    case (Inr recent_questions)
    let ?e = "''/tags/'' @ tech @ ''/info''"
    obtain response s3 where i: "so_make_request w (recursion_limit w) ?e [] s2 = (response, s3)"
      by (cases "so_make_request w (recursion_limit w) ?e [] s2")
    obtain response' t3 where
      i': "so_make_request w' (recursion_limit w') ?e [] t2 = (response', t3)"
      by (cases "so_make_request w' (recursion_limit w') ?e [] t2")
    from so_lockstep [OF a2, of "recursion_limit w" ?e "[]"] i i' aligned_limit [OF a]
    have same3: "response = response'" and a3: "aligned w w' s3 t3"
      by (simp_all add: same_outcome_def)
    show ?thesis
    proof (cases response')
      case (Inl e)
      with Inr q q' same a2 n1(1) i i' same3 a3 show ?thesis
        by (simp add: demand_body_def Let_def split_beta same_outcome_def)
    next
      case info: (Inr tag_info)
      obtain x s4 where x: "demand_summary w recent_questions tag_info s3 = (x, s4)"
        by (cases "demand_summary w recent_questions tag_info s3")
      obtain x' t4 where x': "demand_summary w' recent_questions tag_info t3 = (x', t4)"
        by (cases "demand_summary w' recent_questions tag_info t3")
      from demand_summary_lockstep [OF a3, of recent_questions tag_info] x x'
      have "x = x'" "aligned w w' s4 t4" by (simp_all add: same_outcome_def)
      with Inr info q q' same n1(1) i i' same3 x x' show ?thesis
        by (cases x')
           (simp_all add: demand_body_def Let_def split_beta same_outcome_def aligned_emit)
    qed
  qed
qed

lemma demand_round_lockstep:
  assumes "aligned w w' s s'"
  shows "same_outcome (aligned w w') (demand_round w tech s) (demand_round w' tech s')"
  unfolding demand_round_def
  by (rule except_exception_lockstep [OF demand_body_lockstep [OF assms]])

lemma aligned_queries_add_event:
  "aligned_queries lib lib' s s' \<Longrightarrow> aligned_queries lib lib' (add_event x s) (add_event y s')"
  by (simp add: aligned_queries_def add_event_def)

lemma ask_lockstep:
  assumes "aligned_queries lib lib' s s'"
  shows "fst (ask lib q s) = fst (ask lib' q s') \<and>
         aligned_queries lib lib' (snd (ask lib q s)) (snd (ask lib' q s'))"
proof -
  from assms have a: "answer lib (queries s + i) q' = answer lib' (queries s' + i) q'" for i q'
    unfolding aligned_queries_def by blast
  from a [of 0] have 1: "answer lib (queries s) q = answer lib' (queries s') q" by simp
  from a have 2: "answer lib (queries s + Suc i) q' = answer lib' (queries s' + Suc i) q'"
    for i q' by blast
  from assms 1 2 show ?thesis
    by (simp add: ask_def aligned_queries_def add_event_def)
qed

lemma read_clock_lockstep:
  assumes "aligned_queries lib lib' s s'"
  shows "fst (read_clock lib s) = fst (read_clock lib' s') \<and>
         aligned_queries lib lib' (snd (read_clock lib s)) (snd (read_clock lib' s'))"
proof -
  from assms have c: "wall_clock lib (readings s + j) = wall_clock lib' (readings s' + j)" for j
    unfolding aligned_queries_def by blast
  from c [of 0] have 1: "wall_clock lib (readings s) = wall_clock lib' (readings s')" by simp
  from c have 2: "wall_clock lib (readings s + Suc j) = wall_clock lib' (readings s' + Suc j)"
    for j by blast
  from assms 1 2 show ?thesis
    by (simp add: read_clock_def aligned_queries_def)
qed

lemma get_interest_over_time_lockstep:
  assumes "aligned_queries lib lib' s s'"
  shows "fst (get_interest_over_time lib keywords timeframe geo s) =
         fst (get_interest_over_time lib' keywords timeframe geo s') \<and>
         aligned_queries lib lib'
           (snd (get_interest_over_time lib keywords timeframe geo s))
           (snd (get_interest_over_time lib' keywords timeframe geo s'))"
proof -
  let ?q = "OverTime (take 5 keywords) timeframe geo"
  obtain x s1 where x: "ask lib ?q s = (x, s1)" by (cases "ask lib ?q s")
  obtain x' t1 where x': "ask lib' ?q s' = (x', t1)" by (cases "ask lib' ?q s'")
  from ask_lockstep [OF assms, of ?q] x x' have "x = x'" "aligned_queries lib lib' s1 t1"
    by simp_all
  with x x' show ?thesis
    by (cases x') (simp_all add: get_interest_over_time_def aligned_queries_add_event)
qed

lemma trend_periods_lockstep:
  "aligned_queries lib lib' s s' \<Longrightarrow>
   fst (trend_periods lib tech periods acc s) = fst (trend_periods lib' tech periods acc s') \<and>
   aligned_queries lib lib' (snd (trend_periods lib tech periods acc s))
     (snd (trend_periods lib' tech periods acc s'))"
proof (induction periods arbitrary: acc s s')
  case Nil
  then show ?case by simp
next
  case (Cons period periods)
  obtain df s1 where d: "get_interest_over_time lib [tech] period [] s = (df, s1)"
    by (cases "get_interest_over_time lib [tech] period [] s")
  obtain df' t1 where d': "get_interest_over_time lib' [tech] period [] s' = (df', t1)"
    by (cases "get_interest_over_time lib' [tech] period [] s'")
  from get_interest_over_time_lockstep [OF Cons.prems, of "[tech]" period "[]"] d d'
  have same: "df = df'" and a1: "aligned_queries lib lib' s1 t1" by simp_all
  have a2: "aligned_queries lib lib' (add_event (Pause 1000000) s1) (add_event (Pause 1000000) t1)"
    using a1 by (rule aligned_queries_add_event)
  show ?case
  proof (cases "\<not> is_empty df \<and> tech \<in> set (labels df)")
    case False
    with d d' same Cons.IH [OF a2, of acc] show ?thesis by auto
  next
    case True
    show ?thesis
    proof (cases "series_statistics df tech")
      case (Inl e)
      with True d d' same a1 show ?thesis by simp
    next
      case (Inr v)
      with True d d' same Cons.IH [OF a2, of "dict_set period v acc"] show ?thesis by simp
    qed
  qed
qed

lemma trend_round_lockstep:
  assumes "aligned_queries lib lib' s s'"
  shows "same_outcome (aligned_queries lib lib') (trend_round lib periods tech s)
           (trend_round lib' periods tech s')"
proof -
  obtain stamp s1 where c: "read_clock lib s = (stamp, s1)" by (cases "read_clock lib s")
  obtain stamp' t1 where c': "read_clock lib' s' = (stamp', t1)" by (cases "read_clock lib' s'")
  from read_clock_lockstep [OF assms] c c' have
    same: "stamp = stamp'" and a1: "aligned_queries lib lib' s1 t1" by simp_all
  obtain x s2 where x: "trend_periods lib tech periods [] s1 = (x, s2)"
    by (cases "trend_periods lib tech periods [] s1")
  obtain x' t2 where x': "trend_periods lib' tech periods [] t1 = (x', t2)"
    by (cases "trend_periods lib' tech periods [] t1")
  from trend_periods_lockstep [OF a1, of tech periods "[]"] x x' have
    "x = x'" "aligned_queries lib lib' s2 t2" by simp_all
  with c c' same x x' show ?thesis
    by (cases x')
       (simp_all add: trend_round_def trend_body_def trends_except_def same_outcome_def
          aligned_queries_add_event)
qed

text \<open>
  Claim C9, as the code has it.  Two runs of a batch method with the same keys return
  the same mapping when they see the same environment: the same credential and reset
  time at the start, the same interpreter, the same answers of the service request by
  request, and the same readings of the clock.  (The entries store \<^verbatim>\<open>datetime.now()\<close>,
  the recent counts compare with it, and the Stack Exchange requests carry it as
  \<^verbatim>\<open>fromdate\<close> and \<^verbatim>\<open>todate\<close>.)
\<close>

theorem rerun_in_same_environment_gives_same_mapping:
  "(aligned w w' s s' \<longrightarrow>
      fst (get_language_stats w keys s) = fst (get_language_stats w' keys s') \<and>
      fst (get_tech_popularity_metrics w keys s) =
        fst (get_tech_popularity_metrics w' keys s') \<and>
      fst (get_tech_demand_metrics w keys s) = fst (get_tech_demand_metrics w' keys s')) \<and>
   (aligned_queries lib lib' ts ts' \<longrightarrow>
      fst (get_tech_demand_trends lib keys periods ts) =
        fst (get_tech_demand_trends lib' keys periods ts'))"
proof (intro conjI impI)
  assume a: "aligned w w' s s'"
  show "fst (get_language_stats w keys s) = fst (get_language_stats w' keys s')"
    unfolding get_language_stats_def
    by (rule same_outcomeD(1), rule for_each_lockstep [where R = "aligned w w'", OF _ a])
       (rule language_stats_round_lockstep)
  show "fst (get_tech_popularity_metrics w keys s) =
        fst (get_tech_popularity_metrics w' keys s')"
    unfolding get_tech_popularity_metrics_def
    by (rule same_outcomeD(1), rule for_each_lockstep [where R = "aligned w w'", OF _ a])
       (rule popularity_round_lockstep)
  show "fst (get_tech_demand_metrics w keys s) = fst (get_tech_demand_metrics w' keys s')"
    unfolding get_tech_demand_metrics_def
    by (rule same_outcomeD(1), rule for_each_lockstep [where R = "aligned w w'", OF _ a])
       (rule demand_round_lockstep)
next
  assume a: "aligned_queries lib lib' ts ts'"
  show "fst (get_tech_demand_trends lib keys periods ts) =
        fst (get_tech_demand_trends lib' keys periods ts')"
    unfolding get_tech_demand_trends_def
    by (rule same_outcomeD(1),
        rule for_each_lockstep [where R = "aligned_queries lib lib'", OF _ a])
       (rule trend_round_lockstep)
qed

theorem rerun_in_same_environment_witness:
  "fst (get_language_stats
     (scripted [] one_repository (fixed_clock first_run_time) two_dates)
     [''rust''] (gh_init None)) =
   fst (get_language_stats
     (scripted [] one_repository (fixed_clock first_run_time) two_dates)
     [''rust'']
     (snd (get_language_stats
        (scripted [] one_repository (fixed_clock first_run_time) two_dates)
        [''rust''] (gh_init None)))) \<and>
   fst (get_tech_demand_trends two_week_library [''rust''] None trends_init) =
   fst (get_tech_demand_trends two_week_library [''rust''] None
     (snd (get_tech_demand_trends two_week_library [''rust''] None trends_init)))"
proof -
  let ?w = "scripted [] one_repository (fixed_clock first_run_time) two_dates"
  have a: "aligned ?w ?w (gh_init None)
      (snd (get_language_stats ?w [''rust''] (gh_init None)))"
    by (simp add: aligned_def get_language_stats_def language_stats_round_def
        language_stats_body_def search_repositories_def language_summary_def
        gh_make_request_unfold gh_attempt_def scripted_def one_repository_def
        first_run_time_def
        fixed_clock_def two_dates_def plain_response_def gh_init_def gh_update_rate_limit_def
        gh_pause_def raise_for_status_def gh_except_def sent_def emit_def now_def
        except_exception_def and_then_def newer_than_def py_truediv_def str_int_10
        Let_def days_def seconds_def)
  have b: "aligned_queries two_week_library two_week_library trends_init
      (snd (get_tech_demand_trends two_week_library [''rust''] None trends_init))"
    by (simp add: aligned_queries_def two_week_library_def)
  from rerun_in_same_environment_gives_same_mapping
      [of ?w ?w "gh_init None" "snd (get_language_stats ?w [''rust''] (gh_init None))"
          "[''rust'']" two_week_library two_week_library trends_init
          "snd (get_tech_demand_trends two_week_library [''rust''] None trends_init)" None]
    a b
  show ?thesis by blast
qed

text \<open>
  Claim C9 as stated fails: against the same repository data, a run two seconds later
  returns another \<^verbatim>\<open>timestamp\<close> and, the repository having left the window of 30
  days, another \<^verbatim>\<open>recent_repos\<close>.
\<close>

theorem rerun_at_a_later_time_counterexample:
  "fst (get_language_stats
     (scripted [] one_repository (fixed_clock first_run_time) two_dates)
     [''rust''] (gh_init None)) =
     [(''rust'',
       Some [(''total_repos'', SInt 1), (''total_stars'', SInt 7),
             (''total_forks'', SInt 0), (''total_watchers'', SInt 0),
             (''avg_stars'', SFloat (TrueDiv 7 1)), (''recent_repos'', SInt 1),
             (''timestamp'', STime 1706659200000000)])] \<and>
   fst (get_language_stats
     (scripted [] one_repository (fixed_clock second_run_time) two_dates)
     [''rust''] (gh_init None)) =
     [(''rust'',
       Some [(''total_repos'', SInt 1), (''total_stars'', SInt 7),
             (''total_forks'', SInt 0), (''total_watchers'', SInt 0),
             (''avg_stars'', SFloat (TrueDiv 7 1)), (''recent_repos'', SInt 0),
             (''timestamp'', STime 1706659202000000)])]"
  by (simp add: get_language_stats_def language_stats_round_def language_stats_body_def
      search_repositories_def language_summary_def gh_make_request_unfold gh_attempt_def
      scripted_def one_repository_def first_run_time_def second_run_time_def fixed_clock_def
      two_dates_def plain_response_def gh_init_def gh_update_rate_limit_def gh_pause_def
      raise_for_status_def gh_except_def sent_def emit_def now_def
      except_exception_def and_then_def newer_than_def py_truediv_def str_int_10
      Let_def days_def seconds_def)

end
